theory Spec2Isabelle
  imports Complex_Main
begin

section \<open>Geometry and risk primitives (app/generators.py)\<close>

text \<open>
  Python floats are modelled as reals. The functions below only add, compare and clamp
  coordinates (and take one square root), so every bound proved here is a bound on the
  idealised arithmetic the source is written in. Python functions whose names start with
  an underscore lose it (\<open>_risk_to_severity\<close> is \<open>risk_to_severity\<close>).

  Every call of the \<open>random\<close> module, of \<open>uuid\<close> and of the clock is an explicit
  argument of the model (a draw), in the order the source makes the calls.
\<close>

datatype py_error = ZeroDivisionError | IndexError

text \<open>\<open>clamp(v, lo, hi) = max(lo, min(hi, v))\<close>\<close>

definition clamp :: "real \<Rightarrow> real \<Rightarrow> real \<Rightarrow> real" where
  "clamp v lo hi = max lo (min hi v)"

type_synonym waypoint = "real \<times> real"

text \<open>
  The body of the loop of \<open>random_route\<close>, run \<open>m\<close> times from the current point
  \<open>(cur_lat, cur_lon)\<close>. \<open>d i\<close> is the pair of draws
  \<open>(random.uniform(-1.2, 1.2), random.uniform(-1.8, 1.8))\<close> of iteration \<open>i\<close>.
\<close>

fun route_steps :: "nat \<Rightarrow> (nat \<Rightarrow> real \<times> real) \<Rightarrow> nat \<Rightarrow> real \<Rightarrow> real \<Rightarrow> waypoint list" where
  "route_steps 0 d i cur_lat cur_lon = []"
| "route_steps (Suc m) d i cur_lat cur_lon =
     (let cur_lat' = clamp (cur_lat + fst (d i)) 35 60;
          cur_lon' = clamp (cur_lon + snd (d i)) (-10) 30
      in (cur_lat', cur_lon') # route_steps m d (Suc i) cur_lat' cur_lon')"

text \<open>\<open>random_route(lat, lon, n)\<close>: the loop runs \<open>max(1, n - 1)\<close> times.\<close>

definition random_route :: "(nat \<Rightarrow> real \<times> real) \<Rightarrow> real \<Rightarrow> real \<Rightarrow> int \<Rightarrow> waypoint list" where
  "random_route d lat lon n = (lat, lon) # route_steps (nat (max 1 (n - 1))) d 0 lat lon"

text \<open>
  \<open>move_towards\<close>. The division of the source raises \<open>ZeroDivisionError\<close> on a zero
  divisor; the model returns it as an error value.
\<close>

definition move_towards ::
  "real \<Rightarrow> real \<Rightarrow> real \<Rightarrow> real \<Rightarrow> real \<Rightarrow> py_error + (real \<times> real \<times> bool)" where
  "move_towards a_lat a_lon b_lat b_lon step_deg =
     (let d_lat = b_lat - a_lat;
          d_lon = b_lon - a_lon;
          dist = sqrt (d_lat * d_lat + d_lon * d_lon)
      in if dist \<le> step_deg then Inr (b_lat, b_lon, True)
         else if dist = 0 then Inl ZeroDivisionError
         else Inr (a_lat + (d_lat / dist) * step_deg,
                   a_lon + (d_lon / dist) * step_deg,
                   False))"

text \<open>\<open>_risk_to_severity\<close>\<close>

definition risk_to_severity :: "real \<Rightarrow> string" where
  "risk_to_severity risk =
     (if risk \<ge> 0.80 then ''critical''
      else if risk \<ge> 0.60 then ''high''
      else if risk \<ge> 0.35 then ''medium''
      else ''low'')"


text \<open>The Euclidean distance between two points, as \<open>move_towards\<close> computes it.\<close>

definition euclid :: "real \<Rightarrow> real \<Rightarrow> real \<Rightarrow> real \<Rightarrow> real" where
  "euclid a_lat a_lon b_lat b_lon =
     sqrt ((b_lat - a_lat) * (b_lat - a_lat) + (b_lon - a_lon) * (b_lon - a_lon))"

section \<open>Data model (app/models.py)\<close>

text \<open>
  The pydantic models, with the simulation fields \<open>bootstrap_assets\<close> adds to an asset.
  Timestamps are clock readings in whole seconds (the source formats them as ISO strings).
  The fields of an event are prefixed \<open>ev_\<close> and those of an alert \<open>al_\<close>; the
  metadata dictionary of an event is an association list.
\<close>

record asset =
  asset_id :: string
  name :: string
  asset_type :: string
  lat :: real
  lon :: real
  status :: string
  last_update :: int
  owner_team :: string
  route :: "waypoint list"
  route_idx :: int
  speed_kmh :: real

record event =
  event_id :: string
  ev_created_at :: int
  ev_lat :: real
  ev_lon :: real
  ev_type :: string
  severity :: string
  source :: string
  confidence :: real
  meta :: "(string \<times> string) list"

record alert =
  alert_id :: string
  al_created_at :: int
  priority :: string
  message :: string
  related_event_id :: "string option"
  related_asset_id :: "string option"
  fingerprint :: string
  expires_at :: "int option"

text \<open>\<open>_event_to_priority\<close>: \<open>None\<close> is the explicit no-alert result.\<close>

definition event_to_priority :: "event \<Rightarrow> string option" where
  "event_to_priority evt =
     (let sev = severity evt
      in if sev = ''critical'' then Some ''p1''
         else if sev = ''high'' then Some ''p2''
         else None)"

section \<open>The shared store\<close>

text \<open>
  The Redis instance, as the part of it the application uses: the three index lists, the
  update log, the per-object payloads (one map per key prefix), the deduplication markers
  (keyed by the hash in \<open>dedup:alert:<hash>\<close>) and the admin keys.

  The store times every expiry on its own clock, read in milliseconds; that clock is not
  the application's (\<open>_now\<close>, \<open>datetime.utcnow\<close>), and each reading of either is an
  argument of the model. A key written with a time to live carries the reading of the
  store's clock at which it expires.
\<close>

datatype admin_data = ScenarioChanged string "(string \<times> int) list" | SimulationReset bool

record admin_notice =
  kind :: string
  actor :: string
  ts :: int
  cooldown_sec :: int
  notice_data :: admin_data

datatype upd_data =
    BootstrapData int
  | AssetData asset
  | EventData event
  | AlertData alert
  | AdminData admin_notice

text \<open>An entry of the update log: \<open>{"type": ..., "data": ...}\<close>.\<close>

type_synonym update = "string \<times> upd_data"

record store =
  assets_list :: "string list"
  events_list :: "string list"
  alerts_list :: "string list"
  updates_stream :: "update list"
  asset_kv :: "string \<rightharpoonup> asset"
  event_kv :: "string \<rightharpoonup> event"
  alert_kv :: "string \<rightharpoonup> (alert \<times> int)"
  dedup_kv :: "int \<rightharpoonup> int"
  sim_scenario :: "string option"
  rate_event_sec :: "int option"
  rate_asset_sec :: "int option"
  rate_alert_sec :: "int option"
  cooldown_until :: "int option"
  admin_lock :: "int option"

text \<open>Redis list commands: a negative index counts from the tail.\<close>

definition norm_index :: "nat \<Rightarrow> int \<Rightarrow> int" where
  "norm_index n i = (if i < 0 then int n + i else i)"

definition lrange :: "'a list \<Rightarrow> int \<Rightarrow> int \<Rightarrow> 'a list" where
  "lrange xs start stop =
     (let a = max 0 (norm_index (length xs) start);
          b = min (int (length xs) - 1) (norm_index (length xs) stop)
      in if b < a then [] else take (nat (b - a + 1)) (drop (nat a) xs))"

text \<open>\<open>LTRIM\<close> keeps exactly the range \<open>LRANGE\<close> returns.\<close>

definition ltrim :: "'a list \<Rightarrow> int \<Rightarrow> int \<Rightarrow> 'a list" where
  "ltrim xs start stop = lrange xs start stop"

definition lindex :: "'a list \<Rightarrow> int \<Rightarrow> 'a option" where
  "lindex xs i =
     (if 0 \<le> norm_index (length xs) i \<and> norm_index (length xs) i < int (length xs)
      then Some (xs ! nat (norm_index (length xs) i)) else None)"

text \<open>
  The expiry of a key written with \<open>EX sec\<close> (or \<open>SETEX\<close>, or \<open>EXPIRE\<close>) when the
  store's clock reads \<open>ms\<close> milliseconds.
\<close>

definition expiry :: "int \<Rightarrow> int \<Rightarrow> int" where
  "expiry ms sec = ms + 1000 * sec"

text \<open>
  Whether a key with the expiry \<open>e\<close> (\<open>None\<close>: no such key) is present when the store's
  clock reads \<open>ms\<close>: the store drops it once its clock reads more than the expiry.
\<close>

definition live :: "int \<Rightarrow> int option \<Rightarrow> bool" where
  "live ms e = (case e of None \<Rightarrow> False | Some until \<Rightarrow> ms \<le> until)"

text \<open>\<open>_push_update\<close>: append, then keep the last 500 entries.\<close>

definition push_update :: "store \<Rightarrow> update \<Rightarrow> store" where
  "push_update r payload =
     r\<lparr>updates_stream := ltrim (updates_stream r @ [payload]) (-500) (-1)\<rparr>"

text \<open>Python indexing of a list: a negative index counts from the end.\<close>

definition py_index :: "'a list \<Rightarrow> int \<Rightarrow> py_error + 'a" where
  "py_index xs i =
     (if 0 \<le> i \<and> i < int (length xs) then Inr (xs ! nat i)
      else if i < 0 \<and> - int (length xs) \<le> i then Inr (xs ! nat (int (length xs) + i))
      else Inl IndexError)"

text \<open>
  \<open>random.choice\<close> and \<open>random.choices(...)[0]\<close>: the draw is the position chosen,
  always in range for the generator.
\<close>

definition pick :: "string list \<Rightarrow> nat \<Rightarrow> string" where
  "pick xs i = (if i < length xs then xs ! i else last xs)"

text \<open>\<open>f"{i:03d}"\<close>\<close>

definition digit :: "nat \<Rightarrow> char" where
  "digit n = ''0123456789'' ! (n mod 10)"

fun dec :: "nat \<Rightarrow> string" where
  "dec n = (if n < 10 then [digit n] else dec (n div 10) @ [digit (n mod 10)])"

definition fmt_03d :: "nat \<Rightarrow> string" where
  "fmt_03d i = replicate (3 - length (dec i)) (CHR ''0'') @ dec i"

section \<open>Simulation engine (app/generators.py)\<close>

text \<open>
  The draws of one iteration of the loop of \<open>bootstrap_assets\<close>, in the order of the
  calls: \<open>uniform(35, 60)\<close>, \<open>uniform(-10, 30)\<close>, the position chosen among the asset
  types, the clock, the position chosen among the teams, the ten hexadecimal digits of
  \<open>uid\<close>, \<open>randint(3, 6)\<close>, the draws of \<open>random_route\<close> and the rounded speed
  \<open>round(uniform(40, 90), 1)\<close>.
\<close>

record boot_draw =
  b_lat :: real
  b_lon :: real
  b_type :: nat
  b_now :: int
  b_team :: nat
  b_uid :: string
  b_route_n :: int
  b_route :: "nat \<Rightarrow> real \<times> real"
  b_speed :: real

definition bootstrap_one :: "nat \<Rightarrow> boot_draw \<Rightarrow> store \<Rightarrow> store" where
  "bootstrap_one i d r =
     (let a = \<lparr>asset_id = ''ast_'' @ b_uid d,
                name = ''Asset-'' @ fmt_03d i,
                asset_type = pick [''sensor'', ''vehicle'', ''relay'', ''drone''] (b_type d),
                lat = b_lat d,
                lon = b_lon d,
                status = ''active'',
                last_update = b_now d,
                owner_team = pick [''blue'', ''green'', ''white''] (b_team d),
                route = random_route (b_route d) (b_lat d) (b_lon d) (b_route_n d),
                route_idx = 0,
                speed_kmh = b_speed d\<rparr>
      in r\<lparr>asset_kv := (asset_kv r)(asset_id a \<mapsto> a),
            assets_list := assets_list r @ [asset_id a]\<rparr>)"

text \<open>\<open>bootstrap_assets(n)\<close>; \<open>draws i\<close> are the draws of iteration \<open>i\<close>.\<close>

definition bootstrap_assets :: "int \<Rightarrow> (nat \<Rightarrow> boot_draw) \<Rightarrow> store \<Rightarrow> store" where
  "bootstrap_assets n draws r =
     (if length (assets_list r) > 0 then r
      else push_update (fold (\<lambda>i. bootstrap_one i (draws i)) [0..<nat n] r)
             (''bootstrap'', BootstrapData n))"

text \<open>
  The draws for one asset of a motion tick: \<open>randint(3, 6)\<close> and the route draws (used
  when the route is regenerated), the two jitters, the status roll, the recovery roll
  and the clock.
\<close>

record move_draw =
  m_route_n :: int
  m_route :: "nat \<Rightarrow> real \<times> real"
  m_jit_lat :: real
  m_jit_lon :: real
  m_roll :: real
  m_recover :: real
  m_now :: int

text \<open>The body of the loop of \<open>update_assets\<close> on the decoded asset.\<close>

definition move_asset :: "move_draw \<Rightarrow> asset \<Rightarrow> py_error + asset" where
  "move_asset d asset0 =
     (let exhausted = (route_idx asset0 \<ge> int (length (route asset0)));
          asset = (if exhausted
                   then asset0\<lparr>route := random_route (m_route d) (lat asset0) (lon asset0) (m_route_n d),
                               route_idx := 0\<rparr>
                   else asset0);
          idx = route_idx asset
      in case py_index (route asset) idx of
           Inl e \<Rightarrow> Inl e
         | Inr (target_lat, target_lon) \<Rightarrow>
            (case move_towards (lat asset) (lon asset) target_lat target_lon
                    (if asset_type asset \<in> {''drone'', ''vehicle''} then 0.03 else 0.02) of
               Inl e \<Rightarrow> Inl e
             | Inr (new_lat, new_lon, arrived) \<Rightarrow>
                (let new_lat = new_lat + m_jit_lat d;
                     new_lon = new_lon + m_jit_lon d;
                     asset = asset\<lparr>lat := clamp new_lat 35 60, lon := clamp new_lon (-10) 30\<rparr>;
                     asset = (if arrived then asset\<lparr>route_idx := idx + 1\<rparr> else asset);
                     roll = m_roll d;
                     asset = (if roll < 0.015 then asset\<lparr>status := ''degraded''\<rparr>
                              else if roll < 0.020 then asset\<lparr>status := ''offline''\<rparr>
                              else if status asset \<in> {''degraded'', ''offline''} \<and> m_recover d < 0.03
                                   then asset\<lparr>status := ''active''\<rparr>
                              else asset)
                 in Inr (asset\<lparr>last_update := m_now d\<rparr>))))"

text \<open>
  The loop of \<open>update_assets\<close> over the sampled ids; \<open>i\<close> counts the iterations. An
  exception ends the tick and leaves what the earlier iterations have written.
\<close>

fun update_loop :: "nat \<Rightarrow> (nat \<Rightarrow> move_draw) \<Rightarrow> string list \<Rightarrow> store \<Rightarrow> py_error option \<times> store" where
  "update_loop i md [] r = (None, r)"
| "update_loop i md (aid # rest) r =
     (case asset_kv r aid of
        None \<Rightarrow> update_loop (Suc i) md rest r
      | Some asset \<Rightarrow>
         (case move_asset (md i) asset of
            Inl e \<Rightarrow> (Some e, r)
          | Inr asset' \<Rightarrow>
              update_loop (Suc i) md rest
                (push_update (r\<lparr>asset_kv := (asset_kv r)(aid \<mapsto> asset')\<rparr>)
                   (''asset_updated'', AssetData asset'))))"

text \<open>
  The draws of a motion tick: \<open>randint(2, 5)\<close>, the ids \<open>random.sample\<close> returns (of
  which the tick takes \<open>k\<close>) and the draws for each iteration.
\<close>

record tick_draw =
  t_k :: int
  t_sample :: "string list"
  t_moves :: "nat \<Rightarrow> move_draw"

definition update_assets :: "tick_draw \<Rightarrow> store \<Rightarrow> py_error option \<times> store" where
  "update_assets d r =
     (let ids = lrange (assets_list r) 0 (-1)
      in if ids = [] then (None, r)
         else (let k = min (int (length ids)) (t_k d)
               in update_loop 0 (t_moves d) (take (nat k) (t_sample d)) r))"




text \<open>\<open>str\<close> of an optional string, as an f-string formats it.\<close>

definition py_str :: "string option \<Rightarrow> string" where
  "py_str v = (case v of None \<Rightarrow> ''None'' | Some x \<Rightarrow> x)"

text \<open>The message template of \<open>generate_alert\<close>, by event type.\<close>

definition alert_msg :: "string \<Rightarrow> string" where
  "alert_msg et =
     (if et = ''comms'' then ''Communications anomaly detected''
      else if et = ''movement'' then ''Unusual movement pattern near asset''
      else if et = ''incident'' then ''Incident reported near monitored corridor''
      else if et = ''weather'' then ''Weather risk impacting operational area''
      else ''Correlation rule triggered'')"

text \<open>The fingerprint \<open>generate_alert\<close> derives from an event and its priority.\<close>

definition alert_fingerprint :: "string \<Rightarrow> event \<Rightarrow> string" where
  "alert_fingerprint prio evt =
     prio @ '':'' @ event_id evt @ '':'' @ py_str (map_of (meta evt) ''asset_id'') @ '':'' @
     alert_msg (ev_type evt)"

text \<open>
  The draws of an alert tick, in the order of the calls: the store's clock when it runs
  \<open>EXISTS\<close> and when it runs \<open>SETEX\<close> on the marker, \<open>utcnow\<close> for the creation
  time, \<open>utcnow\<close> for the expiry time, the digits of \<open>uid\<close>, and the store's clock
  when it runs \<open>EXPIRE\<close> on the payload.
\<close>

record alert_draw =
  a_exists_at :: int
  a_setex_at :: int
  a_now :: int
  a_now2 :: int
  a_uid :: string
  a_expire_at :: int

text \<open>
  \<open>generate_alert\<close>. \<open>h\<close> is Python's \<open>hash\<close> on strings: it is salted when the
  process starts, so it is one function for the life of a process and another one in
  another process.
\<close>

definition generate_alert :: "(string \<Rightarrow> int) \<Rightarrow> alert_draw \<Rightarrow> store \<Rightarrow> store" where
  "generate_alert h d r =
     (if length (events_list r) = 0 then r
      else case lindex (events_list r) (-1) of
        None \<Rightarrow> r
      | Some eid \<Rightarrow>
         (case event_kv r eid of
            None \<Rightarrow> r
          | Some evt \<Rightarrow>
             (case event_to_priority evt of
                None \<Rightarrow> r
              | Some prio \<Rightarrow>
                 (let related = map_of (meta evt) ''asset_id'';
                      msg = alert_msg (ev_type evt);
                      sev = severity evt;
                      fp = alert_fingerprint prio evt;
                      dedup_key = h fp
                  in if live (a_exists_at d) (dedup_kv r dedup_key) then r
                     else
                      (let r = r\<lparr>dedup_kv := (dedup_kv r)(dedup_key \<mapsto> expiry (a_setex_at d) 60)\<rparr>;
                           alr = \<lparr>alert_id = ''alr_'' @ a_uid d,
                                   al_created_at = a_now d,
                                   priority = prio,
                                   message = msg @ '' (sev='' @ sev @ '')'',
                                   related_event_id = Some (event_id evt),
                                   related_asset_id = related,
                                   fingerprint = fp,
                                   expires_at = Some (a_now2 d + 300)\<rparr>
                       in push_update
                            (r\<lparr>alert_kv := (alert_kv r)(alert_id alr \<mapsto> (alr, expiry (a_expire_at d) 600)),
                               alerts_list := ltrim (alerts_list r @ [alert_id alr]) (-300) (-1)\<rparr>)
                            (''alert_raised'', AlertData alr))))))"

section \<open>Admin controller (app/routes/admin.py, app/config.py)\<close>

record settings =
  admin_cooldown_sec :: int
  admin_lock_sec :: int

text \<open>The defaults of \<open>Settings\<close>.\<close>

definition default_settings :: settings where
  "default_settings = \<lparr>admin_cooldown_sec = 300, admin_lock_sec = 10\<rparr>"

text \<open>\<open>ScenarioName\<close>: the request body is validated against the three literals.\<close>

datatype scenario_name = Normal | Stress | Incident

fun scenario_str :: "scenario_name \<Rightarrow> string" where
  "scenario_str Normal = ''normal''"
| "scenario_str Stress = ''stress''"
| "scenario_str Incident = ''incident''"

text \<open>\<open>SCENARIO_PRESETS\<close>\<close>

fun SCENARIO_PRESETS :: "scenario_name \<Rightarrow> (string \<times> int) list" where
  "SCENARIO_PRESETS Normal = [(''event'', 6), (''asset'', 2), (''alert'', 3)]"
| "SCENARIO_PRESETS Stress = [(''event'', 2), (''asset'', 1), (''alert'', 1)]"
| "SCENARIO_PRESETS Incident = [(''event'', 3), (''asset'', 1), (''alert'', 1)]"

text \<open>
  The clock readings of an admin request, in the order of the calls: the store's clock
  when it runs \<open>SET admin:lock\<close>, then \<open>_now()\<close> in \<open>_cooldown_remaining\<close>, in
  \<open>_set_cooldown\<close> and in \<open>_announce\<close>.
\<close>

record admin_clock =
  lock_at :: int
  now_check :: int
  now_set :: int
  now_ts :: int

text \<open>
  \<open>_acquire_lock\<close>: \<open>SET admin:lock 1 NX EX admin_lock_sec\<close>. The key is written only
  when it is absent, and the store then keeps it for \<open>admin_lock_sec\<close> seconds of its
  own clock, \<open>ms\<close> being the reading at the write; nothing deletes it.
\<close>

definition acquire_lock :: "settings \<Rightarrow> int \<Rightarrow> store \<Rightarrow> bool \<times> store" where
  "acquire_lock cfg ms r =
     (if live ms (admin_lock r) then (False, r)
      else (True, r\<lparr>admin_lock := Some (expiry ms (admin_lock_sec cfg))\<rparr>))"

text \<open>\<open>_set_cooldown\<close>, \<open>now\<close> being what \<open>_now()\<close> returns: whole seconds.\<close>

definition set_cooldown :: "settings \<Rightarrow> int \<Rightarrow> store \<Rightarrow> store" where
  "set_cooldown cfg now r = r\<lparr>cooldown_until := Some (now + admin_cooldown_sec cfg)\<rparr>"

text \<open>\<open>_cooldown_remaining\<close>: a missing key reads as 0.\<close>

definition cooldown_remaining :: "int \<Rightarrow> store \<Rightarrow> int" where
  "cooldown_remaining now r =
     (let until_i = (case cooldown_until r of None \<Rightarrow> 0 | Some u \<Rightarrow> u)
      in max 0 (until_i - now))"

definition announce :: "settings \<Rightarrow> int \<Rightarrow> store \<Rightarrow> string \<Rightarrow> admin_data \<Rightarrow> string \<Rightarrow> store" where
  "announce cfg now r knd data act =
     push_update r
       (''admin_notice'',
        AdminData \<lparr>kind = knd, actor = act, ts = now,
                   cooldown_sec = admin_cooldown_sec cfg, notice_data = data\<rparr>)"

text \<open>The two refusals of an admin operation: HTTP 409 and HTTP 429 with the seconds left.\<close>

datatype http_error = Busy | CooldownActive int

record scenario_ok =
  ok_scenario :: string
  ok_rates :: "(string \<times> int) list"
  ok_cooldown_sec :: int

text \<open>
  \<open>set_scenario\<close>. \<open>act\<close> is the actor id \<open>_actor_id\<close> hashes from the request and
  \<open>c\<close> the clock readings of the request.
\<close>

definition set_scenario ::
  "settings \<Rightarrow> string \<Rightarrow> admin_clock \<Rightarrow> scenario_name \<Rightarrow> store \<Rightarrow>
     (http_error + scenario_ok) \<times> store" where
  "set_scenario cfg act c body r =
     (case acquire_lock cfg (lock_at c) r of
        (False, r) \<Rightarrow> (Inl Busy, r)
      | (True, r) \<Rightarrow>
         (let rem = cooldown_remaining (now_check c) r
          in if rem > 0 then (Inl (CooldownActive rem), r)
             else
              (let scenario = scenario_str body;
                   preset = SCENARIO_PRESETS body;
                   r = r\<lparr>sim_scenario := Some scenario,
                         rate_event_sec := map_of preset ''event'',
                         rate_asset_sec := map_of preset ''asset'',
                         rate_alert_sec := map_of preset ''alert''\<rparr>;
                   r = set_cooldown cfg (now_set c) r;
                   r = announce cfg (now_ts c) r ''scenario_changed''
                         (ScenarioChanged scenario preset) act
               in (Inr \<lparr>ok_scenario = scenario, ok_rates = preset,
                         ok_cooldown_sec = admin_cooldown_sec cfg\<rparr>, r))))"

section \<open>Stream reader (app/routes/stream.py)\<close>

text \<open>
  A frame is kept as its event name and its data rather than as the text \<open>sse\<close> builds;
  the first frame is the \<open>retry\<close> directive. The reader's clock is \<open>time.time()\<close>.
\<close>

datatype frame_data = HelloData real | HeartbeatData real | UpdData upd_data

datatype frame = Retry nat | Sse string frame_data

record reader =
  last_idx :: nat
  last_heartbeat :: real

text \<open>
  \<open>stream\<close> up to the loop: the cursor is the length of the update log, and the
  generator starts with the retry hint and the hello frame.
\<close>

definition stream_open :: "real \<Rightarrow> store \<Rightarrow> frame list \<times> reader" where
  "stream_open now r =
     ([Retry 2000, Sse ''hello'' (HelloData now)],
      \<lparr>last_idx = length (updates_stream r), last_heartbeat = now\<rparr>)"

text \<open>One iteration of the loop, on the store as it is at that moment.\<close>

definition poll :: "real \<Rightarrow> store \<Rightarrow> reader \<Rightarrow> frame list \<times> reader" where
  "poll now r rd =
     (let len = length (updates_stream r);
          items = (if len > last_idx rd
                   then lrange (updates_stream r) (int (last_idx rd)) (int len - 1) else []);
          rd = (if len > last_idx rd then rd\<lparr>last_idx := len\<rparr> else rd);
          frames = map (\<lambda>(evt_type, data). Sse evt_type (UpdData data)) items;
          beat = (now - last_heartbeat rd \<ge> 10);
          frames = (if beat then frames @ [Sse ''heartbeat'' (HeartbeatData now)] else frames);
          rd = (if beat then rd\<lparr>last_heartbeat := now\<rparr> else rd)
      in (frames, rd))"

text \<open>
  The loop runs until the client goes away: the model runs it over the finite sequence
  of moments (clock, store) at which the reader has polled so far.
\<close>

fun stream_loop :: "(real \<times> store) list \<Rightarrow> reader \<Rightarrow> frame list" where
  "stream_loop [] rd = []"
| "stream_loop ((now, r) # rest) rd =
     (case poll now r rd of (frames, rd') \<Rightarrow> frames @ stream_loop rest rd')"

section \<open>Invariants and derived notions\<close>

text \<open>The operating region [35, 60] x [-10, 30].\<close>

definition in_region :: "real \<Rightarrow> real \<Rightarrow> bool" where
  "in_region la lo = (35 \<le> la \<and> la \<le> 60 \<and> -10 \<le> lo \<and> lo \<le> 30)"

text \<open>Every id of the assets index that resolves to a payload has its position in the region.\<close>

definition assets_in_region :: "store \<Rightarrow> bool" where
  "assets_in_region r =
     (\<forall>aid \<in> set (assets_list r).
        case asset_kv r aid of None \<Rightarrow> True | Some a \<Rightarrow> in_region (lat a) (lon a))"

text \<open>A sequence of motion ticks, each on the store the previous one left.\<close>

fun run_ticks :: "tick_draw list \<Rightarrow> store \<Rightarrow> store" where
  "run_ticks [] r = r"
| "run_ticks (d # ds) r = run_ticks ds (snd (update_assets d r))"

text \<open>
  The fingerprint an alert tick derives from the store: the one of the most recent event,
  when that event is found and has a priority (the path of \<open>generate_alert\<close> up to its
  deduplication test).
\<close>

definition derived_fingerprint :: "store \<Rightarrow> string option" where
  "derived_fingerprint r =
     (if length (events_list r) = 0 then None
      else case lindex (events_list r) (-1) of
        None \<Rightarrow> None
      | Some eid \<Rightarrow>
         (case event_kv r eid of
            None \<Rightarrow> None
          | Some evt \<Rightarrow>
             (case event_to_priority evt of
                None \<Rightarrow> None
              | Some prio \<Rightarrow> Some (alert_fingerprint prio evt))))"

text \<open>
  The ids a motion tick works on: the first \<open>k\<close> of the sample, \<open>k\<close> being
  \<open>min(len(ids), randint(2, 5))\<close>.
\<close>

definition tick_sample :: "tick_draw \<Rightarrow> store \<Rightarrow> string list" where
  "tick_sample d r =
     take (nat (min (int (length (lrange (assets_list r) 0 (-1)))) (t_k d))) (t_sample d)"

text \<open>What \<open>random.sample\<close> returns: ids of the assets index, no id twice.\<close>

definition tick_ok :: "tick_draw \<Rightarrow> store \<Rightarrow> bool" where
  "tick_ok d r = (distinct (tick_sample d r) \<and> set (tick_sample d r) \<subseteq> set (assets_list r))"

text \<open>No asset of the index has a negative route cursor.\<close>

definition routes_started :: "store \<Rightarrow> bool" where
  "routes_started r =
     (\<forall>aid \<in> set (assets_list r).
        case asset_kv r aid of None \<Rightarrow> True | Some a \<Rightarrow> 0 \<le> route_idx a)"

text \<open>
  The route and the cursor a move works with: a fresh route and 0 when the cursor has
  run past the end of the stored route.
\<close>

definition current_leg :: "move_draw \<Rightarrow> asset \<Rightarrow> waypoint list \<times> int" where
  "current_leg d a =
     (if route_idx a \<ge> int (length (route a))
      then (random_route (m_route d) (lat a) (lon a) (m_route_n d), 0)
      else (route a, route_idx a))"

text \<open>The step size of a move, by asset type.\<close>

definition step_deg :: "asset \<Rightarrow> real" where
  "step_deg a = (if asset_type a \<in> {''drone'', ''vehicle''} then 0.03 else 0.02)"

section \<open>Sample inputs\<close>

text \<open>A fresh store, and the inputs at which the theorems below are run.\<close>

definition empty_store :: store where
  "empty_store = \<lparr>assets_list = [], events_list = [], alerts_list = [], updates_stream = [],
     asset_kv = Map.empty, event_kv = Map.empty, alert_kv = Map.empty, dedup_kv = Map.empty,
     sim_scenario = None, rate_event_sec = None, rate_asset_sec = None, rate_alert_sec = None,
     cooldown_until = None, admin_lock = None\<rparr>"

text \<open>A bootstrap that puts every asset on the north-east corner of the region.\<close>

definition corner_boot :: "nat \<Rightarrow> boot_draw" where
  "corner_boot i = \<lparr>b_lat = 60, b_lon = 30, b_type = 1, b_now = 0, b_team = 0,
     b_uid = ''00000000a'' @ [digit i], b_route_n = 3, b_route = (\<lambda>_. (1.2, 1.8)), b_speed = 50\<rparr>"

definition corner_asset :: asset where
  "corner_asset = \<lparr>asset_id = ''ast_00000000a0'', name = ''Asset-000'', asset_type = ''vehicle'',
     lat = 60, lon = 30, status = ''active'', last_update = 0, owner_team = ''blue'',
     route = [(60, 30), (59, 29)], route_idx = 0, speed_kmh = 50\<rparr>"

text \<open>A move whose jitter pushes the latitude north and the longitude west.\<close>

definition jitter_move :: move_draw where
  "jitter_move = \<lparr>m_route_n = 3, m_route = (\<lambda>_. (0, 0)), m_jit_lat = 0.004, m_jit_lon = -0.004,
     m_roll = 0.5, m_recover = 0.5, m_now = 2\<rparr>"

definition jitter_tick :: tick_draw where
  "jitter_tick = \<lparr>t_k = 2, t_sample = [''ast_00000000a0'', ''ast_00000000a1''],
     t_moves = (\<lambda>_. jitter_move)\<rparr>"



text \<open>A store whose most recent event has the given severity.\<close>

definition sample_event :: "string \<Rightarrow> event" where
  "sample_event sev = \<lparr>event_id = ''evt_0123456789'', ev_created_at = 5, ev_lat = 48, ev_lon = 11,
     ev_type = ''comms'', severity = sev, source = ''synthetic'', confidence = 0.8,
     meta = [(''asset_id'', ''ast_00000000a0''), (''owner_team'', ''blue'')]\<rparr>"

definition event_store :: "string \<Rightarrow> store" where
  "event_store sev = empty_store\<lparr>events_list := [''evt_0123456789''],
     event_kv := [''evt_0123456789'' \<mapsto> sample_event sev]\<rparr>"

text \<open>A stand-in for \<open>hash\<close> on the samples.\<close>

definition len_hash :: "string \<Rightarrow> int" where
  "len_hash s = int (length s)"

text \<open>A store whose update log holds 500 entries, the most \<open>_push_update\<close> keeps.\<close>

definition full_store :: store where
  "full_store = empty_store\<lparr>updates_stream := replicate 500 (''asset_updated'', AssetData corner_asset)\<rparr>"

text \<open>
  A store holding one vehicle on its way east to its second waypoint, one degree away,
  and a tick that samples it.
\<close>

definition inland_asset :: asset where
  "inland_asset = \<lparr>asset_id = ''ast_00000000b0'', name = ''Asset-007'', asset_type = ''vehicle'',
     lat = 48, lon = 11, status = ''active'', last_update = 0, owner_team = ''green'',
     route = [(48, 11), (48, 12)], route_idx = 1, speed_kmh = 60\<rparr>"

definition inland_store :: store where
  "inland_store = empty_store\<lparr>assets_list := [''ast_00000000b0''],
     asset_kv := [''ast_00000000b0'' \<mapsto> inland_asset]\<rparr>"

definition inland_tick :: tick_draw where
  "inland_tick = \<lparr>t_k = 3, t_sample = [''ast_00000000b0''], t_moves = (\<lambda>_. jitter_move)\<rparr>"

text \<open>
  An alert tick that reaches the store from the reading \<open>ms\<close> of the store's clock on,
  with the application's clock in step with it.
\<close>

definition alert_tick :: "int \<Rightarrow> string \<Rightarrow> alert_draw" where
  "alert_tick ms u = \<lparr>a_exists_at = ms, a_setex_at = ms + 1, a_now = ms div 1000,
     a_now2 = ms div 1000, a_uid = u, a_expire_at = ms + 2\<rparr>"

text \<open>The hash of another process: another salt.\<close>

definition other_hash :: "string \<Rightarrow> int" where
  "other_hash s = int (length s) + 7919"

text \<open>
  An admin request whose readings are all taken when the clocks read \<open>ms\<close>
  milliseconds: \<open>_now()\<close> is that time in whole seconds.
\<close>

definition request_at :: "int \<Rightarrow> admin_clock" where
  "request_at ms = \<lparr>lock_at = ms, now_check = ms div 1000, now_set = ms div 1000,
     now_ts = ms div 1000\<rparr>"

section \<open>Properties of the primitives\<close>

lemma clamp_bounds: "lo \<le> hi \<Longrightarrow> lo \<le> clamp v lo hi \<and> clamp v lo hi \<le> hi"
  by (simp add: clamp_def)

lemma length_route_steps: "length (route_steps m d i la lo) = m"
  by (induction m arbitrary: i la lo) (simp_all add: Let_def)

lemma route_steps_nth:
  "k < m \<Longrightarrow>
   (la # map fst (route_steps m d i la lo)) ! Suc k =
     clamp ((la # map fst (route_steps m d i la lo)) ! k + fst (d (i + k))) 35 60 \<and>
   (lo # map snd (route_steps m d i la lo)) ! Suc k =
     clamp ((lo # map snd (route_steps m d i la lo)) ! k + snd (d (i + k))) (-10) 30"
proof (induction m arbitrary: i la lo k)
  case 0
  then show ?case by simp
next
  case (Suc m)
  show ?case
  proof (cases k)
    case 0
    then show ?thesis by (simp add: Let_def)
  next
    case (Suc j)
    with Suc.prems have "j < m" by simp
    from Suc.IH [OF this, of "clamp (la + fst (d i)) 35 60" "Suc i" "clamp (lo + snd (d i)) (-10) 30"]
    show ?thesis using Suc by (simp add: Let_def)
  qed
qed

text \<open>
  C2, as amended. The boundary table of \<open>_risk_to_severity\<close>, lower bounds inclusive:
  the result is critical exactly from 0.80, high exactly on [0.60, 0.80), medium exactly
  on [0.35, 0.60) and low exactly below 0.35. At the three sample points:
  0.80 is critical, 0.79 is high and 0.59 is medium.
\<close>

theorem risk_to_severity_table:
  "(risk_to_severity r = ''critical'' \<longleftrightarrow> 0.80 \<le> r) \<and>
   (risk_to_severity r = ''high'' \<longleftrightarrow> 0.60 \<le> r \<and> r < 0.80) \<and>
   (risk_to_severity r = ''medium'' \<longleftrightarrow> 0.35 \<le> r \<and> r < 0.60) \<and>
   (risk_to_severity r = ''low'' \<longleftrightarrow> r < 0.35) \<and>
   risk_to_severity 0.80 = ''critical'' \<and>
   risk_to_severity 0.79 = ''high'' \<and>
   risk_to_severity 0.59 = ''medium''"
  by (simp add: risk_to_severity_def)

theorem risk_to_severity_table_witness:
  "risk_to_severity 0.9 = ''critical'' \<and> risk_to_severity 0.6 = ''high'' \<and>
   risk_to_severity 0.35 = ''medium'' \<and> risk_to_severity 0.1 = ''low''"
  using risk_to_severity_table [of "0.9"] risk_to_severity_table [of "0.6"]
        risk_to_severity_table [of "0.35"] risk_to_severity_table [of "0.1"]
  by simp

text \<open>
  C2, as stated, fails at 0.79: the claim says medium, the code answers high
  (0.79 is at least 0.60).
\<close>

theorem risk_to_severity_079_counterexample:
  "risk_to_severity 0.79 \<noteq> ''medium''"
  by (simp add: risk_to_severity_def)

lemma scaled_norm:
  fixes x y d s :: real
  assumes "0 < d" "0 \<le> s" "d = sqrt (x * x + y * y)"
  shows "sqrt ((x / d * s) * (x / d * s) + (y / d * s) * (y / d * s)) = s"
proof -
  have dd: "d * d = x * x + y * y"
    using assms(3) by (simp add: sum_power2_ge_zero flip: power2_eq_square)
  have "(x / d * s) * (x / d * s) + (y / d * s) * (y / d * s) = (x * x + y * y) / (d * d) * (s * s)"
    by (simp add: algebra_simps add_divide_distrib)
  also have "\<dots> = s * s" using assms(1) by (simp add: dd [symmetric])
  finally show ?thesis using assms(2) by simp
qed

text \<open>
  C6. For every step > 0, \<open>move_towards\<close> returns a result and never the division
  error; within a distance of at most the step (in particular from a point to itself) the
  result is exactly the target \<open>q\<close> with \<open>arrived = True\<close>; farther away it is the
  point \<open>p + (q - p) / dist * step\<close>, which lies at distance exactly \<open>step\<close> from \<open>p\<close>,
  with \<open>arrived = False\<close>.
\<close>

theorem move_towards_total:
  assumes "0 < step"
  shows "(\<exists>res. move_towards p_lat p_lon q_lat q_lon step = Inr res) \<and>
         (euclid p_lat p_lon q_lat q_lon \<le> step \<longrightarrow>
            move_towards p_lat p_lon q_lat q_lon step = Inr (q_lat, q_lon, True)) \<and>
         move_towards p_lat p_lon p_lat p_lon step = Inr (p_lat, p_lon, True) \<and>
         (step < euclid p_lat p_lon q_lat q_lon \<longrightarrow>
            move_towards p_lat p_lon q_lat q_lon step =
              Inr (p_lat + (q_lat - p_lat) / euclid p_lat p_lon q_lat q_lon * step,
                   p_lon + (q_lon - p_lon) / euclid p_lat p_lon q_lat q_lon * step, False) \<and>
            euclid p_lat p_lon
              (p_lat + (q_lat - p_lat) / euclid p_lat p_lon q_lat q_lon * step)
              (p_lon + (q_lon - p_lon) / euclid p_lat p_lon q_lat q_lon * step) = step)"
proof -
  let ?dist = "euclid p_lat p_lon q_lat q_lon"
  have total: "\<exists>res. move_towards p_lat p_lon q_lat q_lon step = Inr res"
    using assms by (auto simp: move_towards_def Let_def)
  have arrive: "?dist \<le> step \<longrightarrow> move_towards p_lat p_lon q_lat q_lon step = Inr (q_lat, q_lon, True)"
    by (simp add: move_towards_def Let_def euclid_def)
  have same: "move_towards p_lat p_lon p_lat p_lon step = Inr (p_lat, p_lon, True)"
    using assms by (simp add: move_towards_def Let_def)
  have far1: "move_towards p_lat p_lon q_lat q_lon step =
              Inr (p_lat + (q_lat - p_lat) / ?dist * step, p_lon + (q_lon - p_lon) / ?dist * step, False)"
    if "step < ?dist"
    using that assms by (auto simp: move_towards_def Let_def euclid_def)
  have far2: "euclid p_lat p_lon (p_lat + (q_lat - p_lat) / ?dist * step)
                (p_lon + (q_lon - p_lon) / ?dist * step) = step" if "step < ?dist"
  proof -
    from that assms have dp: "0 < ?dist" by simp
    from scaled_norm [OF dp, of step "q_lat - p_lat" "q_lon - p_lon"] assms
    show ?thesis by (simp add: euclid_def)
  qed
  from total arrive same far1 far2 show ?thesis by blast
qed

theorem move_towards_total_witness:
  "(0::real) < 1 \<and> move_towards 0 0 3 4 1 = Inr (3/5, 4/5, False) \<and>
   move_towards 0 0 3 4 5 = Inr (3, 4, True) \<and> move_towards 7 8 7 8 1 = Inr (7, 8, True)"
proof -
  have s: "sqrt 25 = 5" using real_sqrt_abs [of 5] by simp
  show ?thesis
    using move_towards_total [of 1 0 0 3 4] move_towards_total [of 5 0 0 3 4]
          move_towards_total [of 1 7 8 7 8]
    by (simp add: s euclid_def)
qed

text \<open>
  C8, as amended. When the draws of \<open>random_route\<close> are within their ranges, the route
  has exactly \<open>n\<close> waypoints for \<open>n \<ge> 2\<close> and exactly 2 for every smaller \<open>n\<close>; its
  first waypoint is the starting point as given; and every later waypoint is its
  predecessor plus a delta of at most 1.2 in latitude and 1.8 in longitude, clamped into
  the operating region.
\<close>

theorem random_route_shape:
  assumes "\<forall>k. \<bar>fst (d k)\<bar> \<le> 1.2 \<and> \<bar>snd (d k)\<bar> \<le> 1.8"
  shows "length (random_route d lat0 lon0 n) = (if 2 \<le> n then nat n else 2) \<and>
         random_route d lat0 lon0 n ! 0 = (lat0, lon0) \<and>
         (\<forall>k. Suc k < length (random_route d lat0 lon0 n) \<longrightarrow>
            (\<exists>dlat dlon. \<bar>dlat\<bar> \<le> 1.2 \<and> \<bar>dlon\<bar> \<le> 1.8 \<and>
               random_route d lat0 lon0 n ! Suc k =
                 (clamp (fst (random_route d lat0 lon0 n ! k) + dlat) 35 60,
                  clamp (snd (random_route d lat0 lon0 n ! k) + dlon) (-10) 30)))"
proof -
  let ?m = "nat (max 1 (n - 1))"
  let ?r = "random_route d lat0 lon0 n"
  have len: "length ?r = (if 2 \<le> n then nat n else 2)"
    by (auto simp: random_route_def length_route_steps)
  have first: "?r ! 0 = (lat0, lon0)" by (simp add: random_route_def)
  have step: "\<exists>dlat dlon. \<bar>dlat\<bar> \<le> 1.2 \<and> \<bar>dlon\<bar> \<le> 1.8 \<and>
               ?r ! Suc k = (clamp (fst (?r ! k) + dlat) 35 60, clamp (snd (?r ! k) + dlon) (-10) 30)"
    if "Suc k < length ?r" for k
  proof -
    from that have km: "k < ?m" by (simp add: random_route_def length_route_steps)
    have lk: "k < length ?r" "Suc k < length ?r" using that by simp_all
    have f: "map fst ?r = lat0 # map fst (route_steps ?m d 0 lat0 lon0)"
      and s: "map snd ?r = lon0 # map snd (route_steps ?m d 0 lat0 lon0)"
      by (simp_all add: random_route_def)
    from route_steps_nth [OF km, of lat0 d 0 lon0]
    have "map fst ?r ! Suc k = clamp (map fst ?r ! k + fst (d k)) 35 60"
     and "map snd ?r ! Suc k = clamp (map snd ?r ! k + snd (d k)) (-10) 30"
      by (simp_all only: f s add_0)
    with lk have "?r ! Suc k = (clamp (fst (?r ! k) + fst (d k)) 35 60,
                                clamp (snd (?r ! k) + snd (d k)) (-10) 30)"
      by (simp add: prod_eq_iff)
    with assms show ?thesis by blast
  qed
  from len first step show ?thesis by blast
qed

theorem random_route_shape_witness:
  "(\<forall>k::nat. \<bar>fst (1::real, -1::real)\<bar> \<le> 1.2 \<and> \<bar>snd (1::real, -1::real)\<bar> \<le> 1.8) \<and>
   length (random_route (\<lambda>_. (1, -1)) 59.5 (-9.5) 4) = 4 \<and>
   length (random_route (\<lambda>_. (1, -1)) 59.5 (-9.5) 0) = 2 \<and>
   random_route (\<lambda>_. (1, -1)) 59.5 (-9.5) 3 = [(59.5, -9.5), (60, -10), (60, -10)]"
proof -
  have h: "\<forall>k::nat. \<bar>fst ((\<lambda>_. (1::real, -1::real)) k)\<bar> \<le> 1.2 \<and> \<bar>snd ((\<lambda>_. (1::real, -1::real)) k)\<bar> \<le> 1.8"
    by simp
  have r3: "random_route (\<lambda>_. (1, -1)) 59.5 (-9.5) 3 = [(59.5, -9.5), (60, -10), (60, -10)]"
    by (simp add: random_route_def clamp_def numeral_2_eq_2 Let_def)
  from random_route_shape [OF h, of "59.5" "-9.5" 4] random_route_shape [OF h, of "59.5" "-9.5" 0] r3
  show ?thesis by simp
qed

text \<open>
  C8, as stated, fails for \<open>n = 1\<close>: the loop runs \<open>max(1, n - 1)\<close> times, so the
  route has two waypoints, not one.
\<close>

theorem random_route_one_counterexample:
  "length (random_route (\<lambda>_. (0, 0)) 40 10 1) \<noteq> 1"
  by (simp add: random_route_def)

section \<open>The store and the engine\<close>

lemma lrange_all: "lrange xs 0 (-1) = xs"
  by (cases xs) (simp_all add: lrange_def norm_index_def Let_def)

lemma ltrim_tail: "0 < k \<Longrightarrow> ltrim xs (- int k) (-1) = drop (length xs - k) xs"
  by (cases xs)
     (auto simp: ltrim_def lrange_def norm_index_def Let_def max_def min_def
                 nat_diff_distrib nat_add_distrib)

lemma push_update_fields [simp]:
  "assets_list (push_update r u) = assets_list r"
  "events_list (push_update r u) = events_list r"
  "alerts_list (push_update r u) = alerts_list r"
  "asset_kv (push_update r u) = asset_kv r"
  "event_kv (push_update r u) = event_kv r"
  "alert_kv (push_update r u) = alert_kv r"
  "dedup_kv (push_update r u) = dedup_kv r"
  "sim_scenario (push_update r u) = sim_scenario r"
  "rate_event_sec (push_update r u) = rate_event_sec r"
  "rate_asset_sec (push_update r u) = rate_asset_sec r"
  "rate_alert_sec (push_update r u) = rate_alert_sec r"
  "cooldown_until (push_update r u) = cooldown_until r"
  "admin_lock (push_update r u) = admin_lock r"
  by (simp_all add: push_update_def)

lemma updates_push_update:
  "updates_stream (push_update r u) =
     drop (length (updates_stream r) + 1 - 500) (updates_stream r @ [u])"
  using ltrim_tail [of 500 "updates_stream r @ [u]"] by (simp add: push_update_def)

lemma move_towards_Inr:
  "0 < step \<Longrightarrow> \<exists>res. move_towards p_lat p_lon q_lat q_lon step = Inr res"
  by (auto simp: move_towards_def Let_def)

lemma py_index_in_range:
  "0 \<le> i \<Longrightarrow> i < int (length xs) \<Longrightarrow> py_index xs i = Inr (xs ! nat i)"
  by (simp add: py_index_def)

lemma current_leg_index:
  assumes "0 \<le> route_idx a"
  shows "0 \<le> snd (current_leg d a) \<and> snd (current_leg d a) < int (length (fst (current_leg d a)))"
  using assms by (auto simp: current_leg_def random_route_def length_route_steps)

lemma move_asset_formula:
  assumes "move_asset d a = Inr a'"
  shows "\<exists>tg_lat tg_lon new_lat new_lon arrived.
           py_index (fst (current_leg d a)) (snd (current_leg d a)) = Inr (tg_lat, tg_lon) \<and>
           move_towards (lat a) (lon a) tg_lat tg_lon (step_deg a) = Inr (new_lat, new_lon, arrived) \<and>
           lat a' = clamp (new_lat + m_jit_lat d) 35 60 \<and>
           lon a' = clamp (new_lon + m_jit_lon d) (-10) 30 \<and>
           route_idx a' = (if arrived then snd (current_leg d a) + 1 else snd (current_leg d a))"
proof -
  from assms obtain tg_lat tg_lon where
    tg: "py_index (fst (current_leg d a)) (snd (current_leg d a)) = Inr (tg_lat, tg_lon)"
    by (auto simp: move_asset_def current_leg_def Let_def split: sum.splits prod.splits if_splits)
  from assms tg obtain new_lat new_lon arrived where
    mv: "move_towards (lat a) (lon a) tg_lat tg_lon (step_deg a) = Inr (new_lat, new_lon, arrived)"
    by (auto simp: move_asset_def current_leg_def step_deg_def Let_def
             split: sum.splits prod.splits if_splits)
  from assms tg mv have
    "lat a' = clamp (new_lat + m_jit_lat d) 35 60 \<and>
     lon a' = clamp (new_lon + m_jit_lon d) (-10) 30 \<and>
     route_idx a' = (if arrived then snd (current_leg d a) + 1 else snd (current_leg d a))"
    by (auto simp: move_asset_def current_leg_def step_deg_def Let_def
             split: sum.splits prod.splits if_splits)
  with tg mv show ?thesis by blast
qed

lemma move_asset_total:
  assumes "0 \<le> route_idx a"
  shows "\<exists>a'. move_asset d a = Inr a' \<and> 0 \<le> route_idx a'"
proof -
  from current_leg_index [OF assms, of d]
  have i: "0 \<le> snd (current_leg d a)" "snd (current_leg d a) < int (length (fst (current_leg d a)))"
    by simp_all
  obtain tg_lat tg_lon where
    tg: "py_index (fst (current_leg d a)) (snd (current_leg d a)) = Inr (tg_lat, tg_lon)"
    using py_index_in_range [OF i] by (cases "fst (current_leg d a) ! nat (snd (current_leg d a))") simp
  have "0 < step_deg a" by (simp add: step_deg_def)
  from move_towards_Inr [OF this, of "lat a" "lon a" tg_lat tg_lon]
  obtain new_lat new_lon arrived where
    mv: "move_towards (lat a) (lon a) tg_lat tg_lon (step_deg a) = Inr (new_lat, new_lon, arrived)"
    by (metis prod_cases3)
  from tg mv obtain a' where a': "move_asset d a = Inr a'"
    by (auto simp: move_asset_def current_leg_def step_deg_def Let_def split: if_splits)
  from move_asset_formula [OF a'] tg mv i(1) have "0 \<le> route_idx a'" by auto
  with a' show ?thesis by blast
qed

lemma move_asset_in_region:
  assumes "move_asset d a = Inr a'"
  shows "in_region (lat a') (lon a')"
proof -
  from move_asset_formula [OF assms] obtain x y where
    "lat a' = clamp x 35 60" "lon a' = clamp y (-10) 30" by blast
  then show ?thesis by (simp add: in_region_def clamp_def)
qed

lemma update_loop_region:
  "assets_in_region r \<Longrightarrow> assets_in_region (snd (update_loop i md ids r))"
proof (induction ids arbitrary: i r)
  case Nil
  then show ?case by simp
next
  case (Cons aid rest)
  show ?case
  proof (cases "asset_kv r aid")
    case None
    with Cons show ?thesis by simp
  next
    case (Some asset)
    show ?thesis
    proof (cases "move_asset (md i) asset")
      case (Inl e)
      with Some Cons.prems show ?thesis by simp
    next
      case (Inr asset')
      let ?r' = "push_update (r\<lparr>asset_kv := (asset_kv r)(aid \<mapsto> asset')\<rparr>)
                   (''asset_updated'', AssetData asset')"
      from move_asset_in_region [OF Inr] Cons.prems have "assets_in_region ?r'"
        by (auto simp: assets_in_region_def split: option.splits)
      from Cons.IH [OF this] Some Inr show ?thesis by simp
    qed
  qed
qed

lemma update_assets_region:
  "assets_in_region r \<Longrightarrow> assets_in_region (snd (update_assets d r))"
  by (simp add: update_assets_def Let_def update_loop_region)

lemma run_ticks_region:
  "assets_in_region r \<Longrightarrow> assets_in_region (run_ticks ds r)"
  by (induction ds arbitrary: r) (simp_all add: update_assets_region)

lemma bootstrap_one_region:
  assumes "assets_in_region r" "in_region (b_lat d) (b_lon d)"
  shows "assets_in_region (bootstrap_one i d r)"
  using assms
  by (auto simp: assets_in_region_def bootstrap_one_def Let_def split: option.splits)

lemma bootstrap_fold_region:
  assumes "\<forall>i. in_region (b_lat (draws i)) (b_lon (draws i))"
  shows "assets_in_region r \<Longrightarrow>
         assets_in_region (fold (\<lambda>i. bootstrap_one i (draws i)) js r)"
  using assms by (induction js arbitrary: r) (simp_all add: bootstrap_one_region)

lemma bootstrap_assets_region:
  assumes "assets_list r = []" "\<forall>i. in_region (b_lat (draws i)) (b_lon (draws i))"
  shows "assets_in_region (bootstrap_assets n draws r)"
proof -
  from assms(1) have "assets_in_region r" by (simp add: assets_in_region_def)
  from bootstrap_fold_region [OF assms(2) this] assms(1) show ?thesis
    by (simp add: bootstrap_assets_def assets_in_region_def)
qed

lemma update_loop_other:
  "aid \<notin> set ids \<Longrightarrow> asset_kv (snd (update_loop i md ids r)) aid = asset_kv r aid"
  by (induction ids arbitrary: i r) (auto split: option.splits sum.splits)

lemma update_loop_assets_list:
  "assets_list (snd (update_loop i md ids r)) = assets_list r"
  by (induction ids arbitrary: i r) (auto split: option.splits sum.splits)

lemma update_loop_persists:
  assumes "distinct ids"
      and "\<forall>aid \<in> set ids. \<forall>a. asset_kv r aid = Some a \<longrightarrow> 0 \<le> route_idx a"
  shows "fst (update_loop i md ids r) = None \<and>
         (\<forall>j < length ids. \<forall>a. asset_kv r (ids ! j) = Some a \<longrightarrow>
            (\<exists>a'. move_asset (md (i + j)) a = Inr a' \<and>
                  asset_kv (snd (update_loop i md ids r)) (ids ! j) = Some a'))"
  using assms
proof (induction ids arbitrary: i r)
  case Nil
  then show ?case by simp
next
  case (Cons aid rest)
  from Cons.prems have d: "distinct rest" and nin: "aid \<notin> set rest" by simp_all
  show ?case
  proof (cases "asset_kv r aid")
    case None
    from Cons.prems have "\<forall>x \<in> set rest. \<forall>a. asset_kv r x = Some a \<longrightarrow> 0 \<le> route_idx a" by simp
    from Cons.IH [OF d this, of "Suc i"] None show ?thesis
      by (auto simp: nth_Cons split: nat.splits)
  next
    case (Some a0)
    with Cons.prems have "0 \<le> route_idx a0" by simp
    from move_asset_total [OF this, of "md i"] obtain a1 where
      a1: "move_asset (md i) a0 = Inr a1" by blast
    let ?r' = "push_update (r\<lparr>asset_kv := (asset_kv r)(aid \<mapsto> a1)\<rparr>) (''asset_updated'', AssetData a1)"
    have same: "asset_kv ?r' x = asset_kv r x" if "x \<in> set rest" for x
      using that nin by auto
    with Cons.prems have "\<forall>x \<in> set rest. \<forall>a. asset_kv ?r' x = Some a \<longrightarrow> 0 \<le> route_idx a" by simp
    from Cons.IH [OF d this, of "Suc i"]
    have ih: "fst (update_loop (Suc i) md rest ?r') = None"
       "\<forall>j < length rest. \<forall>a. asset_kv ?r' (rest ! j) = Some a \<longrightarrow>
            (\<exists>a'. move_asset (md (Suc i + j)) a = Inr a' \<and>
                  asset_kv (snd (update_loop (Suc i) md rest ?r')) (rest ! j) = Some a')"
      by simp_all
    have eq: "update_loop i md (aid # rest) r = update_loop (Suc i) md rest ?r'"
      using Some a1 by simp
    have head: "asset_kv (snd (update_loop (Suc i) md rest ?r')) aid = Some a1"
      using update_loop_other [OF nin, of "Suc i" md ?r'] by simp
    have "\<exists>a'. move_asset (md (i + j)) a = Inr a' \<and>
               asset_kv (snd (update_loop (Suc i) md rest ?r')) ((aid # rest) ! j) = Some a'"
      if j: "j < length (aid # rest)" and a: "asset_kv r ((aid # rest) ! j) = Some a" for j a
    proof (cases j)
      case 0
      with a Some a1 head show ?thesis by simp
    next
      case (Suc k)
      with j have k: "k < length rest" by simp
      then have "rest ! k \<in> set rest" by simp
      with a Suc same have "asset_kv ?r' (rest ! k) = Some a" by simp
      with ih(2) k Suc show ?thesis by simp
    qed
    with ih(1) eq show ?thesis by simp
  qed
qed

lemma update_assets_loop:
  "update_assets d r =
     (if assets_list r = [] then (None, r) else update_loop 0 (t_moves d) (tick_sample d r) r)"
  by (simp add: update_assets_def tick_sample_def lrange_all Let_def)

lemma update_assets_persists:
  assumes "routes_started r" "tick_ok d r"
  shows "fst (update_assets d r) = None \<and>
         (\<forall>j < length (tick_sample d r). \<forall>a. asset_kv r (tick_sample d r ! j) = Some a \<longrightarrow>
            (\<exists>a'. move_asset (t_moves d j) a = Inr a' \<and>
                  asset_kv (snd (update_assets d r)) (tick_sample d r ! j) = Some a'))"
proof (cases "assets_list r = []")
  case True
  with assms(2) have "tick_sample d r = []" by (simp add: tick_ok_def)
  with True show ?thesis by (simp add: update_assets_loop)
next
  case False
  from assms have d: "distinct (tick_sample d r)"
    and s: "\<forall>aid \<in> set (tick_sample d r). \<forall>a. asset_kv r aid = Some a \<longrightarrow> 0 \<le> route_idx a"
    by (auto simp: tick_ok_def routes_started_def split: option.splits)
  from update_loop_persists [OF d s, of 0 "t_moves d"] False show ?thesis
    by (simp add: update_assets_loop)
qed

lemma update_loop_started:
  "routes_started r \<Longrightarrow> routes_started (snd (update_loop i md ids r))"
proof (induction ids arbitrary: i r)
  case Nil
  then show ?case by simp
next
  case (Cons aid rest)
  show ?case
  proof (cases "asset_kv r aid")
    case None
    with Cons show ?thesis by simp
  next
    case (Some asset)
    show ?thesis
    proof (cases "move_asset (md i) asset")
      case (Inl e)
      with Some Cons.prems show ?thesis by simp
    next
      case (Inr asset')
      let ?r' = "push_update (r\<lparr>asset_kv := (asset_kv r)(aid \<mapsto> asset')\<rparr>)
                   (''asset_updated'', AssetData asset')"
      have "0 \<le> route_idx asset'" if "aid \<in> set (assets_list r)"
      proof -
        from that Some Cons.prems have "0 \<le> route_idx asset"
          by (auto simp: routes_started_def split: option.splits)
        from move_asset_total [OF this, of "md i"] Inr show ?thesis by simp
      qed
      with Cons.prems have "routes_started ?r'"
        by (auto simp: routes_started_def split: option.splits)
      from Cons.IH [OF this] Some Inr show ?thesis by simp
    qed
  qed
qed

lemma run_ticks_started:
  "routes_started r \<Longrightarrow> routes_started (run_ticks ds r)"
  by (induction ds arbitrary: r) (simp_all add: update_assets_def Let_def update_loop_started)

lemma bootstrap_fold_started:
  "routes_started r \<Longrightarrow> routes_started (fold (\<lambda>i. bootstrap_one i (draws i)) js r)"
proof (induction js arbitrary: r)
  case Nil
  then show ?case by simp
next
  case (Cons j js)
  from Cons.prems have "routes_started (bootstrap_one j (draws j) r)"
    by (auto simp: routes_started_def bootstrap_one_def Let_def split: option.splits)
  from Cons.IH [OF this] show ?case by simp
qed

lemma bootstrap_assets_started:
  assumes "assets_list r = []"
  shows "routes_started (bootstrap_assets n draws r)"
proof -
  from assms have "routes_started r" by (simp add: routes_started_def)
  from bootstrap_fold_started [OF this] assms show ?thesis
    by (simp add: bootstrap_assets_def routes_started_def)
qed

text \<open>
  C1. Bootstrap a store whose assets index is empty, with the two position draws of every
  asset within their ranges (\<open>uniform(35, 60)\<close> and \<open>uniform(-10, 30)\<close>): then every
  asset of the index has its latitude in [35, 60] and its longitude in [-10, 30], and
  this still holds after any sequence of motion ticks, whatever their draws; no asset
  then has a negative route cursor. On every store without a negative cursor, a tick
  whose sample is made of distinct ids of the index raises nothing, and for each sampled
  id with a payload \<open>a\<close> the payload the tick leaves in the store is the moved asset
  \<open>a'\<close>: a step of \<open>move_towards\<close> from the position of \<open>a\<close> towards the waypoint at
  its cursor, plus the two jitters of that iteration, clamped into [35, 60] for the
  latitude and into [-10, 30] for the longitude.
\<close>

theorem assets_stay_in_region:
  assumes "assets_list r0 = []"
      and "\<forall>i. in_region (b_lat (draws i)) (b_lon (draws i))"
  shows "assets_in_region (bootstrap_assets n draws r0) \<and>
         assets_in_region (run_ticks ticks (bootstrap_assets n draws r0)) \<and>
         routes_started (run_ticks ticks (bootstrap_assets n draws r0)) \<and>
         (\<forall>d r. routes_started r \<and> tick_ok d r \<longrightarrow>
            fst (update_assets d r) = None \<and>
            (\<forall>j < length (tick_sample d r). \<forall>a. asset_kv r (tick_sample d r ! j) = Some a \<longrightarrow>
               (\<exists>a' tg_lat tg_lon new_lat new_lon arrived.
                  asset_kv (snd (update_assets d r)) (tick_sample d r ! j) = Some a' \<and>
                  move_asset (t_moves d j) a = Inr a' \<and>
                  py_index (fst (current_leg (t_moves d j) a)) (snd (current_leg (t_moves d j) a)) =
                    Inr (tg_lat, tg_lon) \<and>
                  move_towards (lat a) (lon a) tg_lat tg_lon (step_deg a) =
                    Inr (new_lat, new_lon, arrived) \<and>
                  lat a' = clamp (new_lat + m_jit_lat (t_moves d j)) 35 60 \<and>
                  lon a' = clamp (new_lon + m_jit_lon (t_moves d j)) (-10) 30 \<and>
                  in_region (lat a') (lon a'))))"
proof -
  have boot: "assets_in_region (bootstrap_assets n draws r0)"
    using assms by (rule bootstrap_assets_region)
  then have ticks: "assets_in_region (run_ticks ticks (bootstrap_assets n draws r0))"
    by (rule run_ticks_region)
  have started: "routes_started (run_ticks ticks (bootstrap_assets n draws r0))"
    using assms(1) by (intro run_ticks_started bootstrap_assets_started)
  have tick: "fst (update_assets d r) = None \<and>
            (\<forall>j < length (tick_sample d r). \<forall>a. asset_kv r (tick_sample d r ! j) = Some a \<longrightarrow>
               (\<exists>a' tg_lat tg_lon new_lat new_lon arrived.
                  asset_kv (snd (update_assets d r)) (tick_sample d r ! j) = Some a' \<and>
                  move_asset (t_moves d j) a = Inr a' \<and>
                  py_index (fst (current_leg (t_moves d j) a)) (snd (current_leg (t_moves d j) a)) =
                    Inr (tg_lat, tg_lon) \<and>
                  move_towards (lat a) (lon a) tg_lat tg_lon (step_deg a) =
                    Inr (new_lat, new_lon, arrived) \<and>
                  lat a' = clamp (new_lat + m_jit_lat (t_moves d j)) 35 60 \<and>
                  lon a' = clamp (new_lon + m_jit_lon (t_moves d j)) (-10) 30 \<and>
                  in_region (lat a') (lon a')))"
    if ok: "routes_started r" "tick_ok d r" for d r
  proof -
    note p = update_assets_persists [OF ok]
    have "\<exists>a' tg_lat tg_lon new_lat new_lon arrived.
                  asset_kv (snd (update_assets d r)) (tick_sample d r ! j) = Some a' \<and>
                  move_asset (t_moves d j) a = Inr a' \<and>
                  py_index (fst (current_leg (t_moves d j) a)) (snd (current_leg (t_moves d j) a)) =
                    Inr (tg_lat, tg_lon) \<and>
                  move_towards (lat a) (lon a) tg_lat tg_lon (step_deg a) =
                    Inr (new_lat, new_lon, arrived) \<and>
                  lat a' = clamp (new_lat + m_jit_lat (t_moves d j)) 35 60 \<and>
                  lon a' = clamp (new_lon + m_jit_lon (t_moves d j)) (-10) 30 \<and>
                  in_region (lat a') (lon a')"
      if j: "j < length (tick_sample d r)" and a: "asset_kv r (tick_sample d r ! j) = Some a" for j a
    proof -
      from p j a obtain a' where
        a': "move_asset (t_moves d j) a = Inr a'"
            "asset_kv (snd (update_assets d r)) (tick_sample d r ! j) = Some a'"
        by blast
      from move_asset_formula [OF a'(1)] move_asset_in_region [OF a'(1)] a'
      show ?thesis by blast
    qed
    with p show ?thesis by blast
  qed
  from boot ticks started tick show ?thesis by blast
qed

theorem assets_stay_in_region_witness:
  "assets_list empty_store = [] \<and>
   (\<forall>i. in_region (b_lat (corner_boot i)) (b_lon (corner_boot i))) \<and>
   assets_list (bootstrap_assets 2 corner_boot empty_store) =
     [''ast_00000000a0'', ''ast_00000000a1''] \<and>
   assets_in_region (run_ticks [jitter_tick] (bootstrap_assets 2 corner_boot empty_store)) \<and>
   routes_started inland_store \<and> tick_ok inland_tick inland_store \<and>
   tick_sample inland_tick inland_store = [''ast_00000000b0''] \<and>
   asset_kv inland_store ''ast_00000000b0'' = Some inland_asset \<and>
   update_assets inland_tick inland_store \<noteq> (None, inland_store) \<and>
   asset_kv (snd (update_assets inland_tick inland_store)) ''ast_00000000b0'' =
     Some (inland_asset\<lparr>lat := 48.004, lon := 11.026, last_update := 2\<rparr>) \<and>
   move_asset jitter_move corner_asset =
     Inr (corner_asset\<lparr>lat := 60, lon := 29.996, route_idx := 1, last_update := 2\<rparr>)"
proof -
  have h1: "assets_list empty_store = []" by (simp add: empty_store_def)
  have h2: "\<forall>i. in_region (b_lat (corner_boot i)) (b_lon (corner_boot i))"
    by (simp add: corner_boot_def in_region_def)
  have l: "assets_list (bootstrap_assets 2 corner_boot empty_store) =
             [''ast_00000000a0'', ''ast_00000000a1'']"
    by (simp add: bootstrap_assets_def bootstrap_one_def empty_store_def corner_boot_def
                  digit_def numeral_2_eq_2 Let_def)
  have m: "move_asset jitter_move corner_asset =
             Inr (corner_asset\<lparr>lat := 60, lon := 29.996, route_idx := 1, last_update := 2\<rparr>)"
    by (simp add: corner_asset_def jitter_move_def move_asset_def py_index_def
                  move_towards_def clamp_def Let_def)
  have m2: "move_asset jitter_move inland_asset =
             Inr (inland_asset\<lparr>lat := 48.004, lon := 11.026, last_update := 2\<rparr>)"
    by (simp add: inland_asset_def jitter_move_def move_asset_def py_index_def
                  move_towards_def clamp_def Let_def)
  have s: "tick_sample inland_tick inland_store = [''ast_00000000b0'']"
    by (simp add: tick_sample_def inland_tick_def inland_store_def lrange_all)
  have kv: "asset_kv inland_store ''ast_00000000b0'' = Some inland_asset"
    by (simp add: inland_store_def)
  have st: "routes_started inland_store"
    by (simp add: routes_started_def inland_store_def inland_asset_def)
  have ok: "tick_ok inland_tick inland_store"
    by (simp add: tick_ok_def s) (simp add: inland_store_def)
  note w = assets_stay_in_region [OF h1 h2, of 2 "[jitter_tick]"]
  from w have reg: "assets_in_region (run_ticks [jitter_tick] (bootstrap_assets 2 corner_boot empty_store))"
    by blast
  from w st ok have "\<forall>j < length (tick_sample inland_tick inland_store).
       \<forall>a. asset_kv inland_store (tick_sample inland_tick inland_store ! j) = Some a \<longrightarrow>
         (\<exists>a'. asset_kv (snd (update_assets inland_tick inland_store))
                  (tick_sample inland_tick inland_store ! j) = Some a' \<and>
               move_asset (t_moves inland_tick j) a = Inr a')"
    by blast
  from this [rule_format, of 0 inland_asset] s kv
  obtain a' where "asset_kv (snd (update_assets inland_tick inland_store)) ''ast_00000000b0'' = Some a'"
    "move_asset (t_moves inland_tick 0) inland_asset = Inr a'"
    by auto
  with m2 have p: "asset_kv (snd (update_assets inland_tick inland_store)) ''ast_00000000b0'' =
     Some (inland_asset\<lparr>lat := 48.004, lon := 11.026, last_update := 2\<rparr>)"
    by (simp add: inland_tick_def)
  have "lat (inland_asset\<lparr>lat := 48.004, lon := 11.026, last_update := 2\<rparr>) \<noteq> lat inland_asset"
    by (simp add: inland_asset_def)
  with p kv have ne: "update_assets inland_tick inland_store \<noteq> (None, inland_store)"
    by (metis option.inject snd_conv)
  from h1 h2 l reg st ok s kv ne p m show ?thesis by blast
qed

text \<open>
  C10. When the assets index is not empty, \<open>bootstrap_assets\<close> returns the store as it
  is: no asset, no key and no entry of the update log is written.
\<close>

theorem bootstrap_assets_guard:
  assumes "assets_list r \<noteq> []"
  shows "bootstrap_assets n draws r = r"
  using assms by (simp add: bootstrap_assets_def)

theorem bootstrap_assets_guard_witness:
  "assets_list (bootstrap_assets 1 corner_boot empty_store) \<noteq> [] \<and>
   bootstrap_assets 60 corner_boot (bootstrap_assets 1 corner_boot empty_store) =
     bootstrap_assets 1 corner_boot empty_store"
proof -
  have h: "assets_list (bootstrap_assets 1 corner_boot empty_store) \<noteq> []"
    by (simp add: bootstrap_assets_def bootstrap_one_def empty_store_def Let_def)
  from bootstrap_assets_guard [OF h, of 60 corner_boot] h show ?thesis by simp
qed

lemma lindex_tail: "lindex xs (-1) = (if xs = [] then None else Some (last xs))"
  by (cases xs rule: rev_cases) (simp_all add: lindex_def norm_index_def nth_append)

lemma ltrim_append:
  assumes "0 < k"
  shows "ltrim (xs @ [x]) (- int k) (-1) = drop (length xs + 1 - k) xs @ [x]"
  using assms ltrim_tail [OF assms, of "xs @ [x]"] by simp

lemma lindex_ltrim_append:
  "0 < k \<Longrightarrow> lindex (ltrim (xs @ [x]) (- int k) (-1)) (-1) = Some x"
  by (simp only: ltrim_append lindex_tail) simp



text \<open>
  C4. \<open>_event_to_priority\<close> answers p1 exactly for critical and p2 exactly for high.
  When the most recent event is medium or low, there is no priority and the alert tick
  returns the store unchanged (the tick has no error result). Whenever the tick changes
  the store, the most recent event is critical or high and the alert stored has the
  priority of that severity and names that event.
\<close>

theorem alert_only_for_priority:
  "(event_to_priority evt = Some p \<longleftrightarrow>
      severity evt = ''critical'' \<and> p = ''p1'' \<or> severity evt = ''high'' \<and> p = ''p2'') \<and>
   (lindex (events_list r) (-1) = Some eid \<and> event_kv r eid = Some evt \<and>
      (severity evt = ''medium'' \<or> severity evt = ''low'') \<longrightarrow>
      event_to_priority evt = None \<and> generate_alert h d r = r) \<and>
   (generate_alert h d r \<noteq> r \<longrightarrow>
      (\<exists>eid' evt' prio alr ttl.
         lindex (events_list r) (-1) = Some eid' \<and> event_kv r eid' = Some evt' \<and>
         event_to_priority evt' = Some prio \<and>
         (severity evt' = ''critical'' \<and> prio = ''p1'' \<or> severity evt' = ''high'' \<and> prio = ''p2'') \<and>
         alert_kv (generate_alert h d r) (''alr_'' @ a_uid d) = Some (alr, ttl) \<and>
         priority alr = prio \<and> related_event_id alr = Some (event_id evt')))"
proof -
  have a: "event_to_priority evt = Some p \<longleftrightarrow>
      severity evt = ''critical'' \<and> p = ''p1'' \<or> severity evt = ''high'' \<and> p = ''p2''"
    by (auto simp: event_to_priority_def Let_def)
  have b: "event_to_priority evt = None \<and> generate_alert h d r = r"
    if "lindex (events_list r) (-1) = Some eid" "event_kv r eid = Some evt"
       "severity evt = ''medium'' \<or> severity evt = ''low''"
    using that by (auto simp: generate_alert_def event_to_priority_def Let_def)
  have c: "\<exists>eid' evt' prio alr ttl.
         lindex (events_list r) (-1) = Some eid' \<and> event_kv r eid' = Some evt' \<and>
         event_to_priority evt' = Some prio \<and>
         (severity evt' = ''critical'' \<and> prio = ''p1'' \<or> severity evt' = ''high'' \<and> prio = ''p2'') \<and>
         alert_kv (generate_alert h d r) (''alr_'' @ a_uid d) = Some (alr, ttl) \<and>
         priority alr = prio \<and> related_event_id alr = Some (event_id evt')"
    if "generate_alert h d r \<noteq> r"
  proof -
    from that obtain eid' where e1: "lindex (events_list r) (-1) = Some eid'"
      by (auto simp: generate_alert_def split: if_splits option.splits)
    from that e1 obtain evt' where e2: "event_kv r eid' = Some evt'"
      by (auto simp: generate_alert_def split: if_splits option.splits)
    from that e1 e2 obtain prio where e3: "event_to_priority evt' = Some prio"
      by (auto simp: generate_alert_def split: if_splits option.splits)
    from e3 have e4: "severity evt' = ''critical'' \<and> prio = ''p1'' \<or> severity evt' = ''high'' \<and> prio = ''p2''"
      by (auto simp: event_to_priority_def Let_def split: if_splits)
    from that e1 e2 e3 have nl: "\<not> live (a_exists_at d) (dedup_kv r (h (alert_fingerprint prio evt')))"
      by (auto simp: generate_alert_def Let_def split: if_splits)
    from that e1 e2 e3 nl have
      "\<exists>alr ttl. alert_kv (generate_alert h d r) (''alr_'' @ a_uid d) = Some (alr, ttl) \<and>
         priority alr = prio \<and> related_event_id alr = Some (event_id evt')"
      by (auto simp: generate_alert_def Let_def split: if_splits)
    with e1 e2 e3 e4 show ?thesis by blast
  qed
  from a b c show ?thesis by blast
qed

lemma derived_fingerprint_generate_alert:
  "derived_fingerprint (generate_alert h d r) = derived_fingerprint r"
  by (simp add: derived_fingerprint_def generate_alert_def Let_def split: option.splits)

lemma generate_alert_fresh:
  assumes "derived_fingerprint r = Some fp" "\<not> live (a_exists_at d) (dedup_kv r (h fp))"
  shows "dedup_kv (generate_alert h d r) (h fp) = Some (expiry (a_setex_at d) 60) \<and>
         alerts_list (generate_alert h d r) = ltrim (alerts_list r @ [''alr_'' @ a_uid d]) (-300) (-1) \<and>
         lindex (alerts_list (generate_alert h d r)) (-1) = Some (''alr_'' @ a_uid d) \<and>
         (\<exists>alr. alert_kv (generate_alert h d r) (''alr_'' @ a_uid d) =
                  Some (alr, expiry (a_expire_at d) 600) \<and>
            fingerprint alr = fp \<and> alert_id alr = ''alr_'' @ a_uid d \<and>
            lindex (updates_stream (generate_alert h d r)) (-1) = Some (''alert_raised'', AlertData alr))"
proof -
  have tl: "lindex (ltrim (xs @ [x]) (-300) (-1)) (-1) = Some x" for xs :: "string list" and x
    using lindex_ltrim_append [of 300 xs x] by simp
  have tu: "lindex (ltrim (xs @ [x]) (-500) (-1)) (-1) = Some x" for xs :: "update list" and x
    using lindex_ltrim_append [of 500 xs x] by simp
  from assms show ?thesis
    by (auto simp: derived_fingerprint_def generate_alert_def Let_def tl tu push_update_def
             split: if_splits option.splits)
qed

lemma generate_alert_marked:
  assumes "derived_fingerprint r = Some fp" "live (a_exists_at d) (dedup_kv r (h fp))"
  shows "generate_alert h d r = r"
  using assms
  by (auto simp: derived_fingerprint_def generate_alert_def Let_def split: if_splits option.splits)

lemma generate_alert_other_dedup:
  "k \<noteq> h fp \<Longrightarrow> derived_fingerprint r = Some fp \<Longrightarrow>
   dedup_kv (generate_alert h d r) k = dedup_kv r k"
  by (auto simp: derived_fingerprint_def generate_alert_def Let_def split: if_splits option.splits)

lemma fp_critical:
  "derived_fingerprint (event_store ''critical'') =
     Some ''p1:evt_0123456789:ast_00000000a0:Communications anomaly detected''"
  by (simp add: derived_fingerprint_def event_store_def empty_store_def sample_event_def
                lindex_def norm_index_def event_to_priority_def alert_fingerprint_def
                alert_msg_def py_str_def)

theorem alert_only_for_priority_witness:
  "generate_alert len_hash (alert_tick 100000 ''abcdef0123'') (event_store ''medium'') =
     event_store ''medium'' \<and>
   generate_alert len_hash (alert_tick 100000 ''abcdef0123'') (event_store ''critical'') \<noteq>
     event_store ''critical'' \<and>
   (\<exists>alr ttl. alert_kv (generate_alert len_hash (alert_tick 100000 ''abcdef0123'')
                  (event_store ''critical'')) ''alr_abcdef0123'' = Some (alr, ttl) \<and>
      priority alr = ''p1'')"
proof -
  let ?d = "alert_tick 100000 ''abcdef0123''"
  have m1: "lindex (events_list (event_store ''medium'')) (-1) = Some ''evt_0123456789''"
    by (simp add: event_store_def lindex_def norm_index_def)
  have m2: "event_kv (event_store ''medium'') ''evt_0123456789'' = Some (sample_event ''medium'')"
    by (simp add: event_store_def)
  have m3: "severity (sample_event ''medium'') = ''medium''" by (simp add: sample_event_def)
  from alert_only_for_priority [of "sample_event ''medium''" "''p1''" "event_store ''medium''"
         "''evt_0123456789''" len_hash ?d] m1 m2 m3
  have none: "generate_alert len_hash ?d (event_store ''medium'') = event_store ''medium''"
    by blast
  have nl: "\<not> live (a_exists_at ?d) (dedup_kv (event_store ''critical'')
              (len_hash ''p1:evt_0123456789:ast_00000000a0:Communications anomaly detected''))"
    by (simp add: event_store_def empty_store_def live_def)
  from generate_alert_fresh [of "event_store ''critical''" _ ?d len_hash] fp_critical nl
  have "lindex (alerts_list (generate_alert len_hash ?d (event_store ''critical''))) (-1) =
          Some (''alr_'' @ a_uid ?d)"
    by blast
  moreover have "lindex (alerts_list (event_store ''critical'')) (-1) = None"
    by (simp add: event_store_def empty_store_def lindex_def norm_index_def)
  ultimately have "lindex (alerts_list (generate_alert len_hash ?d (event_store ''critical''))) (-1) \<noteq>
        lindex (alerts_list (event_store ''critical'')) (-1)"
    by simp
  then have ne: "generate_alert len_hash ?d (event_store ''critical'') \<noteq> event_store ''critical''"
    by auto
  from alert_only_for_priority [of "sample_event ''critical''" "''p1''" "event_store ''critical''"
         "''evt_0123456789''" len_hash ?d] ne
  obtain evt' prio alr ttl where
    e: "event_kv (event_store ''critical'') ''evt_0123456789'' = Some evt'"
       "severity evt' = ''critical'' \<and> prio = ''p1'' \<or> severity evt' = ''high'' \<and> prio = ''p2''"
       "alert_kv (generate_alert len_hash ?d (event_store ''critical'')) (''alr_'' @ a_uid ?d) = Some (alr, ttl)"
       "priority alr = prio"
    by (auto simp: event_store_def lindex_def norm_index_def)
  from e(1) have "evt' = sample_event ''critical''" by (simp add: event_store_def)
  with e(2) have "prio = ''p1''" by (simp add: sample_event_def)
  with e(3,4) have "\<exists>alr ttl. alert_kv (generate_alert len_hash ?d (event_store ''critical''))
                  ''alr_abcdef0123'' = Some (alr, ttl) \<and> priority alr = ''p1''"
    by (auto simp: alert_tick_def)
  with none ne show ?thesis by blast
qed

text \<open>
  C5, at the input where the code departs from it. A first alert tick finds no marker,
  sets one and persists an alert. Three seconds later, well inside the 60 seconds of the
  marker, a second tick derives the same fingerprint from the same store. Run by the same
  process it finds the marker and returns the store unchanged. Run by another process
  (another instance on the same store, or the same instance after a restart) it hashes
  the fingerprint to another key, finds no marker there and persists a second alert with
  the same fingerprint: the marker is keyed by \<open>hash(fingerprint)\<close>, which is salted
  per process.
\<close>

theorem alert_dedup_two_processes:
  "derived_fingerprint (event_store ''critical'') =
     Some ''p1:evt_0123456789:ast_00000000a0:Communications anomaly detected'' \<and>
   alerts_list (generate_alert len_hash (alert_tick 100000 ''aaaaaaaaaa'') (event_store ''critical'')) =
     [''alr_aaaaaaaaaa''] \<and>
   derived_fingerprint
     (generate_alert len_hash (alert_tick 100000 ''aaaaaaaaaa'') (event_store ''critical'')) =
     Some ''p1:evt_0123456789:ast_00000000a0:Communications anomaly detected'' \<and>
   generate_alert len_hash (alert_tick 103000 ''bbbbbbbbbb'')
     (generate_alert len_hash (alert_tick 100000 ''aaaaaaaaaa'') (event_store ''critical'')) =
     generate_alert len_hash (alert_tick 100000 ''aaaaaaaaaa'') (event_store ''critical'') \<and>
   alerts_list (generate_alert other_hash (alert_tick 103000 ''bbbbbbbbbb'')
     (generate_alert len_hash (alert_tick 100000 ''aaaaaaaaaa'') (event_store ''critical''))) =
     [''alr_aaaaaaaaaa'', ''alr_bbbbbbbbbb''] \<and>
   map_option (fingerprint \<circ> fst)
     (alert_kv (generate_alert len_hash (alert_tick 100000 ''aaaaaaaaaa'') (event_store ''critical''))
        ''alr_aaaaaaaaaa'') =
     Some ''p1:evt_0123456789:ast_00000000a0:Communications anomaly detected'' \<and>
   map_option (fingerprint \<circ> fst)
     (alert_kv (generate_alert other_hash (alert_tick 103000 ''bbbbbbbbbb'')
        (generate_alert len_hash (alert_tick 100000 ''aaaaaaaaaa'') (event_store ''critical'')))
        ''alr_bbbbbbbbbb'') =
     Some ''p1:evt_0123456789:ast_00000000a0:Communications anomaly detected''"
proof -
  let ?fp = "''p1:evt_0123456789:ast_00000000a0:Communications anomaly detected''"
  let ?r = "event_store ''critical''"
  let ?d1 = "alert_tick 100000 ''aaaaaaaaaa''"
  let ?d2 = "alert_tick 103000 ''bbbbbbbbbb''"
  let ?r1 = "generate_alert len_hash ?d1 ?r"
  have nl: "\<not> live (a_exists_at ?d1) (dedup_kv ?r (len_hash ?fp))"
    by (simp add: event_store_def empty_store_def live_def)
  from generate_alert_fresh [of ?r ?fp ?d1 len_hash] fp_critical nl
  have f1: "dedup_kv ?r1 (len_hash ?fp) = Some (expiry (a_setex_at ?d1) 60)"
       "alerts_list ?r1 = ltrim (alerts_list ?r @ [''alr_'' @ a_uid ?d1]) (-300) (-1)"
       "\<exists>alr. alert_kv ?r1 (''alr_'' @ a_uid ?d1) = Some (alr, expiry (a_expire_at ?d1) 600) \<and>
          fingerprint alr = ?fp"
    by blast+
  from f1(3) have g1: "map_option (fingerprint \<circ> fst) (alert_kv ?r1 ''alr_aaaaaaaaaa'') = Some ?fp"
    by (auto simp: alert_tick_def)
  have a1: "alerts_list ?r1 = [''alr_aaaaaaaaaa'']"
    using f1(2) ltrim_append [of 300 "[]" "''alr_aaaaaaaaaa''"]
    by (simp add: event_store_def empty_store_def alert_tick_def)
  have fp1: "derived_fingerprint ?r1 = Some ?fp"
    by (simp only: derived_fingerprint_generate_alert fp_critical)
  have "live (a_exists_at ?d2) (Some (expiry (a_setex_at ?d1) 60))"
    by (simp add: live_def expiry_def alert_tick_def)
  then have "live (a_exists_at ?d2) (dedup_kv ?r1 (len_hash ?fp))"
    by (simp only: f1(1))
  from generate_alert_marked [of ?r1 ?fp ?d2 len_hash] fp1 this
  have same: "generate_alert len_hash ?d2 ?r1 = ?r1" by blast
  have "other_hash ?fp \<noteq> len_hash ?fp" by (simp add: other_hash_def len_hash_def)
  from generate_alert_other_dedup [of "other_hash ?fp" len_hash ?fp ?r ?d1] this fp_critical
  have "dedup_kv ?r1 (other_hash ?fp) = dedup_kv ?r (other_hash ?fp)" by blast
  then have nl2: "\<not> live (a_exists_at ?d2) (dedup_kv ?r1 (other_hash ?fp))"
    by (simp add: event_store_def empty_store_def live_def)
  from generate_alert_fresh [of ?r1 ?fp ?d2 other_hash] fp1 nl2
  have f2: "alerts_list (generate_alert other_hash ?d2 ?r1) =
          ltrim (alerts_list ?r1 @ [''alr_'' @ a_uid ?d2]) (-300) (-1)"
       "\<exists>alr. alert_kv (generate_alert other_hash ?d2 ?r1) (''alr_'' @ a_uid ?d2) =
                Some (alr, expiry (a_expire_at ?d2) 600) \<and> fingerprint alr = ?fp"
    by blast+
  from f2(2) have g2: "map_option (fingerprint \<circ> fst)
      (alert_kv (generate_alert other_hash ?d2 ?r1) ''alr_bbbbbbbbbb'') = Some ?fp"
    by (auto simp: alert_tick_def)
  from f2(1) have "alerts_list (generate_alert other_hash ?d2 ?r1) =
          ltrim ([''alr_aaaaaaaaaa''] @ [''alr_'' @ a_uid ?d2]) (-300) (-1)"
    by (simp only: a1)
  then have a2: "alerts_list (generate_alert other_hash ?d2 ?r1) = [''alr_aaaaaaaaaa'', ''alr_bbbbbbbbbb'']"
    using ltrim_append [of 300 "[''alr_aaaaaaaaaa'']" "''alr_bbbbbbbbbb''"]
    by (simp add: alert_tick_def)
  from fp_critical a1 fp1 same a2 g1 g2 show ?thesis by simp
qed

section \<open>The admin controller\<close>

lemma set_scenario_ok:
  assumes "\<not> live (lock_at c) (admin_lock r)" "cooldown_remaining (now_check c) r = 0"
  shows "\<exists>ok r'. set_scenario cfg act c body r = (Inr ok, r') \<and>
           ok_scenario ok = scenario_str body \<and> ok_rates ok = SCENARIO_PRESETS body \<and>
           sim_scenario r' = Some (scenario_str body) \<and>
           rate_event_sec r' = map_of (SCENARIO_PRESETS body) ''event'' \<and>
           rate_asset_sec r' = map_of (SCENARIO_PRESETS body) ''asset'' \<and>
           rate_alert_sec r' = map_of (SCENARIO_PRESETS body) ''alert'' \<and>
           admin_lock r' = Some (expiry (lock_at c) (admin_lock_sec cfg)) \<and>
           cooldown_until r' = Some (now_set c + admin_cooldown_sec cfg)"
  using assms
  by (simp add: set_scenario_def acquire_lock_def cooldown_remaining_def set_cooldown_def
                announce_def Let_def)

lemma set_scenario_Inr:
  assumes "set_scenario cfg act c body r = (Inr ok, r')"
  shows "\<not> live (lock_at c) (admin_lock r) \<and> cooldown_remaining (now_check c) r = 0"
  using assms
  by (auto simp: set_scenario_def acquire_lock_def cooldown_remaining_def Let_def max_def
           split: if_splits)

text \<open>
  C3, as amended. Let the lock's time to live be positive (the store refuses another
  one). After a successful \<open>set_scenario\<close> the scenario name and the three
  rate overrides are those of the preset chosen. A second call on the store the first
  one left: while the store still holds the lock of the first call (the store's clock has
  not reached the expiry of the lock, \<open>admin_lock_sec\<close> seconds after the first call
  took it) it returns the busy outcome and leaves the store as it is; once the store has
  dropped the lock and while \<open>_now()\<close> is before the cooldown deadline the first call
  wrote, it returns the cooldown-active outcome carrying the seconds left and changes
  nothing but the lock, so the scenario and the rates stay those of the first call; once
  the store has dropped the lock and \<open>_now()\<close> has reached the deadline, it succeeds
  and applies its own preset. Nothing is said of a call the store runs at the very
  millisecond the lock expires.
\<close>

theorem set_scenario_second_call:
  assumes "0 < admin_lock_sec cfg"
      and "set_scenario cfg act c1 b1 r = (Inr ok1, r1)"
  shows "sim_scenario r1 = Some (scenario_str b1) \<and>
         rate_event_sec r1 = map_of (SCENARIO_PRESETS b1) ''event'' \<and>
         rate_asset_sec r1 = map_of (SCENARIO_PRESETS b1) ''asset'' \<and>
         rate_alert_sec r1 = map_of (SCENARIO_PRESETS b1) ''alert'' \<and>
         (lock_at c2 < lock_at c1 + 1000 * admin_lock_sec cfg \<longrightarrow>
            set_scenario cfg act2 c2 b2 r1 = (Inl Busy, r1)) \<and>
         (lock_at c1 + 1000 * admin_lock_sec cfg < lock_at c2 \<and>
          now_check c2 < now_set c1 + admin_cooldown_sec cfg \<longrightarrow>
            set_scenario cfg act2 c2 b2 r1 =
              (Inl (CooldownActive (now_set c1 + admin_cooldown_sec cfg - now_check c2)),
               r1\<lparr>admin_lock := Some (lock_at c2 + 1000 * admin_lock_sec cfg)\<rparr>)) \<and>
         (lock_at c1 + 1000 * admin_lock_sec cfg < lock_at c2 \<and>
          now_set c1 + admin_cooldown_sec cfg \<le> now_check c2 \<longrightarrow>
            (\<exists>ok2 r2. set_scenario cfg act2 c2 b2 r1 = (Inr ok2, r2) \<and>
               ok_scenario ok2 = scenario_str b2 \<and>
               sim_scenario r2 = Some (scenario_str b2) \<and>
               rate_event_sec r2 = map_of (SCENARIO_PRESETS b2) ''event'' \<and>
               rate_asset_sec r2 = map_of (SCENARIO_PRESETS b2) ''asset'' \<and>
               rate_alert_sec r2 = map_of (SCENARIO_PRESETS b2) ''alert''))"
proof -
  from set_scenario_Inr [OF assms(2)]
  have pre: "\<not> live (lock_at c1) (admin_lock r)" "cooldown_remaining (now_check c1) r = 0"
    by simp_all
  from set_scenario_ok [OF pre, of cfg act b1] assms(2)
  have st: "sim_scenario r1 = Some (scenario_str b1)"
       "rate_event_sec r1 = map_of (SCENARIO_PRESETS b1) ''event''"
       "rate_asset_sec r1 = map_of (SCENARIO_PRESETS b1) ''asset''"
       "rate_alert_sec r1 = map_of (SCENARIO_PRESETS b1) ''alert''"
       "admin_lock r1 = Some (lock_at c1 + 1000 * admin_lock_sec cfg)"
       "cooldown_until r1 = Some (now_set c1 + admin_cooldown_sec cfg)"
    by (auto simp: expiry_def)
  have busy: "set_scenario cfg act2 c2 b2 r1 = (Inl Busy, r1)"
    if "lock_at c2 < lock_at c1 + 1000 * admin_lock_sec cfg"
    using that st(5) by (simp add: set_scenario_def acquire_lock_def live_def)
  have cool: "set_scenario cfg act2 c2 b2 r1 =
              (Inl (CooldownActive (now_set c1 + admin_cooldown_sec cfg - now_check c2)),
               r1\<lparr>admin_lock := Some (lock_at c2 + 1000 * admin_lock_sec cfg)\<rparr>)"
    if "lock_at c1 + 1000 * admin_lock_sec cfg < lock_at c2"
       "now_check c2 < now_set c1 + admin_cooldown_sec cfg"
    using that st(5,6)
    by (simp add: set_scenario_def acquire_lock_def live_def cooldown_remaining_def expiry_def Let_def)
  have again: "\<exists>ok2 r2. set_scenario cfg act2 c2 b2 r1 = (Inr ok2, r2) \<and>
               ok_scenario ok2 = scenario_str b2 \<and>
               sim_scenario r2 = Some (scenario_str b2) \<and>
               rate_event_sec r2 = map_of (SCENARIO_PRESETS b2) ''event'' \<and>
               rate_asset_sec r2 = map_of (SCENARIO_PRESETS b2) ''asset'' \<and>
               rate_alert_sec r2 = map_of (SCENARIO_PRESETS b2) ''alert''"
    if "lock_at c1 + 1000 * admin_lock_sec cfg < lock_at c2"
       "now_set c1 + admin_cooldown_sec cfg \<le> now_check c2"
  proof -
    from that st(5,6) have "\<not> live (lock_at c2) (admin_lock r1)" "cooldown_remaining (now_check c2) r1 = 0"
      by (simp_all add: live_def cooldown_remaining_def)
    from set_scenario_ok [OF this, of cfg act2 b2] show ?thesis by blast
  qed
  from st(1-4) busy cool again show ?thesis by blast
qed

theorem set_scenario_second_call_witness:
  "0 < admin_lock_sec default_settings \<and>
   (\<exists>ok1 r1. set_scenario default_settings ''a1b2c3'' (request_at 1000900) Stress empty_store = (Inr ok1, r1) \<and>
     sim_scenario r1 = Some ''stress'' \<and> rate_event_sec r1 = Some 2 \<and>
     set_scenario default_settings ''d4e5f6'' (request_at 1010100) Incident r1 = (Inl Busy, r1) \<and>
     fst (set_scenario default_settings ''d4e5f6'' (request_at 1011000) Incident r1) =
       Inl (CooldownActive 289) \<and>
     sim_scenario (snd (set_scenario default_settings ''d4e5f6'' (request_at 1011000) Incident r1)) =
       Some ''stress'' \<and>
     rate_event_sec (snd (set_scenario default_settings ''d4e5f6'' (request_at 1011000) Incident r1)) =
       Some 2 \<and>
     (\<exists>ok2 r2. set_scenario default_settings ''d4e5f6'' (request_at 1300000) Incident r1 = (Inr ok2, r2) \<and>
        sim_scenario r2 = Some ''incident'' \<and> rate_event_sec r2 = Some 3))"
proof -
  have "\<not> live (lock_at (request_at 1000900)) (admin_lock empty_store)"
       "cooldown_remaining (now_check (request_at 1000900)) empty_store = 0"
    by (simp_all add: empty_store_def live_def cooldown_remaining_def request_at_def)
  from set_scenario_ok [OF this, of default_settings "''a1b2c3''" Stress]
  obtain ok1 r1 where
    first: "set_scenario default_settings ''a1b2c3'' (request_at 1000900) Stress empty_store = (Inr ok1, r1)"
    by blast
  have pos: "0 < admin_lock_sec default_settings" by (simp add: default_settings_def)
  note w = set_scenario_second_call [OF pos first, of _ "''d4e5f6''" Incident]
  from w [of "request_at 1010100"] w [of "request_at 1011000"] w [of "request_at 1300000"]
  have "sim_scenario r1 = Some ''stress'' \<and> rate_event_sec r1 = Some 2 \<and>
     set_scenario default_settings ''d4e5f6'' (request_at 1010100) Incident r1 = (Inl Busy, r1) \<and>
     fst (set_scenario default_settings ''d4e5f6'' (request_at 1011000) Incident r1) =
       Inl (CooldownActive 289) \<and>
     sim_scenario (snd (set_scenario default_settings ''d4e5f6'' (request_at 1011000) Incident r1)) =
       Some ''stress'' \<and>
     rate_event_sec (snd (set_scenario default_settings ''d4e5f6'' (request_at 1011000) Incident r1)) =
       Some 2 \<and>
     (\<exists>ok2 r2. set_scenario default_settings ''d4e5f6'' (request_at 1300000) Incident r1 = (Inr ok2, r2) \<and>
        sim_scenario r2 = Some ''incident'' \<and> rate_event_sec r2 = Some 3)"
    by (auto simp: default_settings_def request_at_def)
  with first pos show ?thesis by blast
qed

text \<open>
  C3, as stated, fails: with the default settings a second call one second after a
  successful one finds the lock of the first call (held for 10 seconds, never released)
  and returns the busy outcome, not the cooldown-active one.
\<close>

theorem set_scenario_busy_counterexample:
  "fst (set_scenario default_settings ''a1b2c3'' (request_at 1000000) Stress empty_store) =
     Inr \<lparr>ok_scenario = ''stress'', ok_rates = [(''event'', 2), (''asset'', 1), (''alert'', 1)],
          ok_cooldown_sec = 300\<rparr> \<and>
   fst (set_scenario default_settings ''d4e5f6'' (request_at 1001000) Incident
          (snd (set_scenario default_settings ''a1b2c3'' (request_at 1000000) Stress empty_store))) =
     Inl Busy \<and>
   fst (set_scenario default_settings ''d4e5f6'' (request_at 1001000) Incident
          (snd (set_scenario default_settings ''a1b2c3'' (request_at 1000000) Stress empty_store))) \<noteq>
     Inl (CooldownActive 299)"
proof -
  have a: "fst (set_scenario default_settings ''a1b2c3'' (request_at 1000000) Stress empty_store) =
     Inr \<lparr>ok_scenario = ''stress'', ok_rates = [(''event'', 2), (''asset'', 1), (''alert'', 1)],
          ok_cooldown_sec = 300\<rparr>"
    by (simp add: set_scenario_def acquire_lock_def cooldown_remaining_def empty_store_def
                  live_def default_settings_def request_at_def Let_def)
  have l: "admin_lock (snd (set_scenario default_settings ''a1b2c3'' (request_at 1000000) Stress
             empty_store)) = Some 1010000"
    by (simp add: set_scenario_def acquire_lock_def cooldown_remaining_def empty_store_def
                  live_def default_settings_def set_cooldown_def announce_def request_at_def
                  expiry_def Let_def)
  have b: "fst (set_scenario default_settings ''d4e5f6'' (request_at 1001000) Incident
          (snd (set_scenario default_settings ''a1b2c3'' (request_at 1000000) Stress empty_store))) =
     Inl Busy"
    by (simp add: set_scenario_def [of _ _ "request_at 1001000"] acquire_lock_def l live_def)
       (simp add: request_at_def)
  from a b show ?thesis by simp
qed

section \<open>The stream reader\<close>

lemma push_update_cap:
  "length (updates_stream r) = 500 \<Longrightarrow> length (updates_stream (push_update r u)) = 500"
  by (simp add: updates_push_update)

text \<open>
  C7, at the input where the code departs from it. The update log holds 500 entries when
  the reader connects, so its cursor is 500. An update is then appended: it is the last
  entry of the log, whose length is still 500 after the trim. The next poll sees a length
  that is not above the cursor and emits no frame for the new entry.
\<close>

theorem stream_silent_at_cap:
  "length (updates_stream full_store) = 500 \<and>
   last_idx (snd (stream_open 0 full_store)) = 500 \<and>
   lindex (updates_stream (push_update full_store (''bootstrap'', BootstrapData 60))) (-1) =
     Some (''bootstrap'', BootstrapData 60) \<and>
   poll 1 (push_update full_store (''bootstrap'', BootstrapData 60)) (snd (stream_open 0 full_store)) =
     ([], snd (stream_open 0 full_store))"
proof -
  have l: "length (updates_stream full_store) = 500" by (simp add: full_store_def)
  have l': "length (updates_stream (push_update full_store (''bootstrap'', BootstrapData 60))) = 500"
    using l by (rule push_update_cap)
  have t: "lindex (updates_stream (push_update full_store (''bootstrap'', BootstrapData 60))) (-1) =
     Some (''bootstrap'', BootstrapData 60)"
    using lindex_ltrim_append [of 500 "updates_stream full_store" "(''bootstrap'', BootstrapData 60)"]
    by (simp add: push_update_def)
  have p: "poll 1 (push_update full_store (''bootstrap'', BootstrapData 60)) (snd (stream_open 0 full_store)) =
     ([], snd (stream_open 0 full_store))"
    by (simp add: poll_def stream_open_def l l' Let_def)
  from l t p show ?thesis by (simp add: stream_open_def)
qed

end
